theory Spec2Isabelle
  imports Complex_Main "HOL-Library.Word"
begin

unbundle bit_operations_syntax

section \<open>Numbers\<close>

text \<open>
  JavaScript numbers are modelled as exact reals: IEEE-754 rounding, NaN and the
  infinities are outside the model. Sample indices and counts are naturals, typed-array
  elements and DataView fields are machine words.
\<close>

type_synonym byte = "8 word"

section \<open>Silence trimmer (services/geminiService.ts, trimSilenceFromAudio)\<close>

definition threshold :: real where
  "threshold = 0.015"

definition minSilenceSamples :: "real \<Rightarrow> real" where
  "minSilenceSamples sampleRate = sampleRate * 0.4"

definition paddingSamples :: "real \<Rightarrow> real" where
  "paddingSamples sampleRate = sampleRate * 0.1"

text \<open>A kept segment \<open>{start, end}\<close> is the pair \<open>(start, end)\<close>.\<close>

type_synonym segment = "real \<times> real"

record scan_state =
  isSilent :: bool
  silenceStart :: nat
  keepSegments :: "segment list"
  currentSegmentStart :: real

definition initial_scan :: scan_state where
  "initial_scan =
     \<lparr>isSilent = True, silenceStart = 0, keepSegments = [], currentSegmentStart = - 1\<rparr>"

text \<open>One iteration of the scan loop at index \<open>i\<close> over a signal of \<open>len\<close> samples.\<close>

definition scan_step :: "real \<Rightarrow> nat \<Rightarrow> nat \<Rightarrow> real \<Rightarrow> scan_state \<Rightarrow> scan_state" where
  "scan_step sampleRate len i x st =
     (let amplitude = \<bar>x\<bar> in
      if amplitude > threshold then
        st\<lparr>currentSegmentStart :=
              (if currentSegmentStart st = - 1
               then max 0 (real i - paddingSamples sampleRate)
               else currentSegmentStart st),
           isSilent := False,
           silenceStart := i\<rparr>
      else if \<not> isSilent st \<and> real i - real (silenceStart st) > minSilenceSamples sampleRate then
        st\<lparr>keepSegments := keepSegments st @
              [(currentSegmentStart st,
                min (real len) (real i - minSilenceSamples sampleRate + paddingSamples sampleRate))],
           currentSegmentStart := - 1,
           isSilent := True\<rparr>
      else st)"

fun scan_loop :: "real \<Rightarrow> nat \<Rightarrow> nat \<Rightarrow> real list \<Rightarrow> scan_state \<Rightarrow> scan_state" where
  "scan_loop sampleRate len i [] st = st"
| "scan_loop sampleRate len i (x # xs) st =
     scan_loop sampleRate len (Suc i) xs (scan_step sampleRate len i x st)"

text \<open>The final segment is added when one is still open after the loop.\<close>

definition close_final :: "nat \<Rightarrow> scan_state \<Rightarrow> segment list" where
  "close_final len st =
     (if currentSegmentStart st \<noteq> - 1
      then keepSegments st @ [(currentSegmentStart st, real len)]
      else keepSegments st)"

definition computeKeepSegments :: "real \<Rightarrow> real list \<Rightarrow> segment list" where
  "computeKeepSegments sampleRate channelData =
     close_final (length channelData)
       (scan_loop sampleRate (length channelData) 0 channelData initial_scan)"


subsection \<open>Building the output buffer\<close>

datatype error = DecodeError | RangeError

text \<open>Truncation towards zero, as the ECMAScript integer conversions do.\<close>

definition js_trunc :: "real \<Rightarrow> int" where
  "js_trunc x = (if x < 0 then \<lceil>x\<rceil> else \<lfloor>x\<rfloor>)"

definition totalSamples :: "segment list \<Rightarrow> real" where
  "totalSamples segs = foldl (\<lambda>acc seg. acc + (snd seg - fst seg)) 0 segs"

text \<open>\<open>new Int16Array(n)\<close>: a negative length raises, a fraction is truncated.\<close>

definition newInt16Array :: "real \<Rightarrow> error + 16 word list" where
  "newInt16Array n =
     (if js_trunc n < 0 then Inl RangeError else Inr (replicate (nat (js_trunc n)) 0))"

text \<open>
  \<open>channelData[j]\<close>: the sample when \<open>j\<close> is an index of the array, \<open>undefined\<close>
  (here \<open>None\<close>) otherwise.
\<close>

definition readChannel :: "real list \<Rightarrow> real \<Rightarrow> real option" where
  "readChannel channelData j =
     (if 0 \<le> j \<and> j < real (length channelData) \<and> j = real_of_int \<lfloor>j\<rfloor>
      then Some (channelData ! nat \<lfloor>j\<rfloor>) else None)"

text \<open>
  \<open>Math.max(-1, Math.min(1, v)) * 32767\<close> stored into an Int16Array element;
  \<open>undefined\<close> becomes NaN, which is stored as 0.
\<close>

definition toPcm16 :: "real option \<Rightarrow> 16 word" where
  "toPcm16 v =
     (case v of None \<Rightarrow> 0
      | Some x \<Rightarrow> word_of_int (js_trunc (max (- 1) (min 1 x) * 32767)))"

text \<open>The indices \<open>j\<close> visited by \<open>for (let j = seg.start; j < seg.end; j++)\<close>.\<close>

function seg_reads :: "real \<Rightarrow> real \<Rightarrow> real list" where
  "seg_reads j e = (if j < e then j # seg_reads (j + 1) e else [])"
  by pat_completeness auto
termination
proof (relation "measure (\<lambda>(j, e). nat \<lceil>e - j\<rceil>)")
  show "wf (measure (\<lambda>(j, e). nat \<lceil>e - j\<rceil>))" by simp
next
  fix j e :: real
  assume "j < e"
  then have "0 < \<lceil>e - j\<rceil>" by simp
  moreover have "e - (j + 1) = (e - j) - 1" by simp
  then have "\<lceil>e - (j + 1)\<rceil> = \<lceil>e - j\<rceil> - 1"
    by (simp only: ceiling_diff_one)
  ultimately show "((j + 1, e), (j, e)) \<in> measure (\<lambda>(j, e). nat \<lceil>e - j\<rceil>)"
    by simp
qed

declare seg_reads.simps [simp del]

text \<open>
  A store into a typed array beyond its length is ignored, which is what
  \<open>xs[i := v]\<close> does.
\<close>

definition store_sample :: "real list \<Rightarrow> real \<Rightarrow> 16 word list \<times> nat \<Rightarrow> 16 word list \<times> nat" where
  "store_sample channelData j acc =
     (case acc of (cleanedPcm, offset) \<Rightarrow>
        (cleanedPcm[offset := toPcm16 (readChannel channelData j)], Suc offset))"

definition fill_segment :: "real list \<Rightarrow> segment \<Rightarrow> 16 word list \<times> nat \<Rightarrow> 16 word list \<times> nat" where
  "fill_segment channelData seg acc =
     fold (store_sample channelData) (seg_reads (fst seg) (snd seg)) acc"

definition fill_pcm :: "real list \<Rightarrow> segment list \<Rightarrow> 16 word list \<Rightarrow> 16 word list" where
  "fill_pcm channelData segs cleanedPcm =
     fst (fold (fill_segment channelData) segs (cleanedPcm, 0))"


section \<open>WAV container (services/geminiService.ts, createWavBlob)\<close>

text \<open>
  A \<open>Blob\<close> is its content and its MIME type. A \<open>DataView\<close> over an
  \<open>ArrayBuffer\<close> is the list of its bytes; every offset written below is a literal
  inside the 44 bytes, so no write is out of range.
\<close>

record blob =
  blob_bytes :: "byte list"
  blob_type :: string

definition ToUint8 :: "real \<Rightarrow> byte" where
  "ToUint8 x = word_of_int (js_trunc x)"

definition ToUint16 :: "real \<Rightarrow> 16 word" where
  "ToUint16 x = word_of_int (js_trunc x)"

definition ToUint32 :: "real \<Rightarrow> 32 word" where
  "ToUint32 x = word_of_int (js_trunc x)"

definition setUint8 :: "nat \<Rightarrow> real \<Rightarrow> byte list \<Rightarrow> byte list" where
  "setUint8 off v view = view[off := ToUint8 v]"

text \<open>Both multi-byte writers are only called with \<open>littleEndian = true\<close>.\<close>

definition setUint16 :: "nat \<Rightarrow> real \<Rightarrow> bool \<Rightarrow> byte list \<Rightarrow> byte list" where
  "setUint16 off v littleEndian view =
     (let w = ToUint16 v;
          b0 = ucast w; b1 = ucast (drop_bit 8 w)
      in if littleEndian then view[off := b0, off + 1 := b1]
         else view[off := b1, off + 1 := b0])"

definition setUint32 :: "nat \<Rightarrow> real \<Rightarrow> bool \<Rightarrow> byte list \<Rightarrow> byte list" where
  "setUint32 off v littleEndian view =
     (let w = ToUint32 v;
          b0 = ucast w; b1 = ucast (drop_bit 8 w);
          b2 = ucast (drop_bit 16 w); b3 = ucast (drop_bit 24 w)
      in if littleEndian then view[off := b0, off + 1 := b1, off + 2 := b2, off + 3 := b3]
         else view[off := b3, off + 1 := b2, off + 2 := b1, off + 3 := b0])"

fun writeStr :: "nat \<Rightarrow> string \<Rightarrow> byte list \<Rightarrow> byte list" where
  "writeStr off [] view = view"
| "writeStr off (c # s) view = writeStr (off + 1) s (setUint8 off (real (of_char c)) view)"

definition wavHeader :: "nat \<Rightarrow> real \<Rightarrow> byte list" where
  "wavHeader byteLength sampleRate =
     (setUint32 40 (real byteLength) True
      (writeStr 36 ''data''
      (setUint16 34 16 True
      (setUint16 32 2 True
      (setUint32 28 (sampleRate * 2) True
      (setUint32 24 sampleRate True
      (setUint16 22 1 True
      (setUint16 20 1 True
      (setUint32 16 16 True
      (writeStr 12 ''fmt ''
      (writeStr 8 ''WAVE''
      (setUint32 4 (36 + real byteLength) True
      (writeStr 0 ''RIFF''
      (replicate 44 0))))))))))))))"

definition createWavBlob :: "byte list \<Rightarrow> real \<Rightarrow> blob" where
  "createWavBlob pcmBuffer sampleRate =
     (let byteLength = length pcmBuffer
      in \<lparr>blob_bytes = wavHeader byteLength sampleRate @ pcmBuffer,
          blob_type = ''audio/wav''\<rparr>)"

text \<open>\<open>cleanedPcm.buffer\<close>: the bytes of an Int16Array, low byte first.\<close>

definition int16_buffer :: "16 word list \<Rightarrow> byte list" where
  "int16_buffer pcm = concat (map (\<lambda>w. [ucast w, ucast (drop_bit 8 w)]) pcm)"

subsection \<open>The trimmer as a whole\<close>

text \<open>
  \<open>decodeAudioData\<close> is the browser's decoder: it yields the first channel and the
  sample rate of the decoded buffer, or fails.
\<close>

definition trimSilenceFromAudio ::
    "(byte list \<Rightarrow> (real list \<times> real) option) \<Rightarrow> blob \<Rightarrow> error + blob" where
  "trimSilenceFromAudio decodeAudioData b =
     (case decodeAudioData (blob_bytes b) of
        None \<Rightarrow> Inl DecodeError
      | Some (channelData, sampleRate) \<Rightarrow>
          (let segs = computeKeepSegments sampleRate channelData in
           if length segs = 0 then Inr b
           else case newInt16Array (totalSamples segs) of
                  Inl e \<Rightarrow> Inl e
                | Inr cleanedPcm0 \<Rightarrow>
                    Inr (createWavBlob (int16_buffer (fill_pcm channelData segs cleanedPcm0))
                           sampleRate)))"

subsection \<open>Reading a header back\<close>

text \<open>
  A reader of the canonical 44-byte RIFF/WAVE header, written from the format's
  layout: the four tags are checked and the numeric fields are read little-endian.
\<close>

definition getUint16LE :: "byte list \<Rightarrow> nat \<Rightarrow> nat" where
  "getUint16LE bs off = unat (bs ! off) + 256 * unat (bs ! (off + 1))"

definition getUint32LE :: "byte list \<Rightarrow> nat \<Rightarrow> nat" where
  "getUint32LE bs off =
     unat (bs ! off) + 256 * unat (bs ! (off + 1)) + 65536 * unat (bs ! (off + 2))
       + 16777216 * unat (bs ! (off + 3))"

definition tag_at :: "byte list \<Rightarrow> nat \<Rightarrow> string \<Rightarrow> bool" where
  "tag_at bs off s = (take (length s) (drop off bs) = map of_char s)"

record wav_info =
  riffSize :: nat
  fmtSize :: nat
  audioFormat :: nat
  numChannels :: nat
  wavSampleRate :: nat
  byteRate :: nat
  blockAlign :: nat
  bitsPerSample :: nat
  dataSize :: nat

definition parse_wav_header :: "byte list \<Rightarrow> wav_info option" where
  "parse_wav_header bs =
     (if length bs \<ge> 44 \<and> tag_at bs 0 ''RIFF'' \<and> tag_at bs 8 ''WAVE''
         \<and> tag_at bs 12 ''fmt '' \<and> tag_at bs 36 ''data''
      then Some \<lparr>riffSize = getUint32LE bs 4, fmtSize = getUint32LE bs 16,
                 audioFormat = getUint16LE bs 20, numChannels = getUint16LE bs 22,
                 wavSampleRate = getUint32LE bs 24, byteRate = getUint32LE bs 28,
                 blockAlign = getUint16LE bs 32, bitsPerSample = getUint16LE bs 34,
                 dataSize = getUint32LE bs 40\<rparr>
      else None)"

subsection \<open>Properties of segment lists\<close>

text \<open>
  A list of kept segments is a chain above \<open>lo\<close> when every segment is non-empty, starts
  at or after \<open>lo\<close> and at or after the end of the segment before it: the segments are
  in increasing order and do not overlap.
\<close>

fun segs_chain :: "real \<Rightarrow> segment list \<Rightarrow> bool" where
  "segs_chain lo [] = True"
| "segs_chain lo (seg # segs) = (lo \<le> fst seg \<and> fst seg < snd seg \<and> segs_chain (snd seg) segs)"

text \<open>
  The loop invariant of the scan before index \<open>i\<close>: the closed segments form a chain
  inside the signal; while no segment is open the scan is in its silent state and every
  closed segment ends at least the padding before \<open>i\<close>; while one is open it starts
  after every closed segment and at or before the last loud sample.
\<close>

definition scan_inv :: "real \<Rightarrow> nat \<Rightarrow> nat \<Rightarrow> scan_state \<Rightarrow> bool" where
  "scan_inv sampleRate len i st =
     (segs_chain 0 (keepSegments st) \<and> list_all (\<lambda>seg. snd seg \<le> real len) (keepSegments st) \<and>
      (if currentSegmentStart st = - 1
       then isSilent st \<and> list_all (\<lambda>seg. snd seg \<le> real i - paddingSamples sampleRate) (keepSegments st)
       else \<not> isSilent st \<and> 0 \<le> currentSegmentStart st
            \<and> currentSegmentStart st \<le> real (silenceStart st) \<and> silenceStart st < i
            \<and> list_all (\<lambda>seg. snd seg \<le> currentSegmentStart st) (keepSegments st)))"


text \<open>Every segment start recorded so far is a whole number.\<close>

definition starts_integral :: "scan_state \<Rightarrow> bool" where
  "starts_integral st =
     (currentSegmentStart st \<in> \<int> \<and> list_all (\<lambda>seg. fst seg \<in> \<int>) (keepSegments st))"


text \<open>
  The end of a kept segment as the specification words it: the index at which the
  silence run starts, minus the minimum silence, plus the padding, clamped to the signal
  length. It is written from the specification, to be compared with the end the scan
  computes.
\<close>

definition spec_segment_end :: "nat \<Rightarrow> nat \<Rightarrow> real \<Rightarrow> real" where
  "spec_segment_end len silenceRunStartIndex sampleRate =
     min (real len)
       (real silenceRunStartIndex - minSilenceSamples sampleRate + paddingSamples sampleRate)"


section \<open>Player (components/Player.tsx): data\<close>

text \<open>
  The canvas is modelled by the list of calls made on its 2D context, in order. The
  component's refs and state are the fields of one record, threaded through the
  functions; the values \<open>Math.random()\<close> returns during a frame and the media
  elements' clocks are inputs. The UI callbacks (\<open>onTimeUpdate\<close>,
  \<open>setProcessingStatus\<close>) are not modelled. The refs are taken as mounted except where
  a flag says otherwise.
\<close>

definition TRANSITION_DURATION :: real where
  "TRANSITION_DURATION = 1.0"

datatype AspectRatio = Ratio_16_9 | Ratio_9_16 | Ratio_1_1

datatype transition = ZoomThrough | PolygonWipe | Parallax25d | Standard

text \<open>The fields of \<open>Scene\<close> (types.ts) that the player reads.\<close>

record scene =
  sceneId :: string
  startTime :: real
  endTime :: real
  imageUrl :: "string option"
  videoClipUrl :: "string option"
  transitionType :: transition

text \<open>An optional string is truthy when it is present and not empty.\<close>

definition truthy :: "string option \<Rightarrow> bool" where
  "truthy s = (case s of None \<Rightarrow> False | Some u \<Rightarrow> u \<noteq> [])"

definition getDimensions :: "AspectRatio \<Rightarrow> real \<times> real" where
  "getDimensions aspectRatio =
     (case aspectRatio of
        Ratio_9_16 \<Rightarrow> (720, 1280)
      | Ratio_1_1 \<Rightarrow> (720, 720)
      | Ratio_16_9 \<Rightarrow> (1280, 720))"

text \<open>
  A video element. \<open>duration\<close> is \<open>None\<close> while the element reports NaN.
\<close>

record video_el =
  src :: string
  paused :: bool
  readyState :: nat
  duration :: "real option"
  currentTime :: real
  playbackRate :: real
  videoWidth :: real
  videoHeight :: real

record audio_el =
  audio_currentTime :: real
  audio_paused :: bool
  audio_ended :: bool

datatype media = ImageMedia string | VideoMedia string | VaporMedia

datatype fill = Colour string | Rgba real real real real | GrainPattern

datatype canvas_op =
    Save
  | Restore
  | FillStyle fill
  | FillRect real real real real
  | GlobalAlpha real
  | GlobalCompositeOperation string
  | DrawImage media real real real real
  | BeginPath
  | MoveTo real real
  | LineTo real real
  | ClosePath
  | Clip
  | Fill
  | Arc real real real real real
  | Translate real real

record particle =
  p_x :: real
  p_y :: real
  p_vx :: real
  p_vy :: real
  p_size :: real
  p_life :: int
  p_green :: int

text \<open>The values of \<open>Math.random()\<close> drawn when a particle is spawned.\<close>

record ember_random =
  r_gate :: real
  r_x :: real
  r_vx :: real
  r_vy :: real
  r_size :: real
  r_colour :: real

text \<open>
  The random values of one frame: three per assembling triangle, those of the ember
  spawn, and the two of the grain offset.
\<close>

record frame_random =
  r_triangle :: "nat \<Rightarrow> real \<times> real \<times> real"
  r_ember :: ember_random
  r_grain :: "real \<times> real"

record props =
  scenes :: "scene list"
  aspectRatio :: AspectRatio
  enableEmbers :: bool
  kenBurnsStrength :: real
  filmGrainStrength :: real
  enableVaporOverlay :: bool
  vaporOverlayOpacity :: real
  enableLetterboxing :: bool
  enablePolygonAssembly :: bool

text \<open>
  The refs and state of the component. \<open>imageCache\<close> maps a URL to the size of its
  loaded image; \<open>grainCacheRef\<close> says whether the grain tile exists; \<open>frameRequested\<close>
  records that the tick asked for another animation frame.
\<close>

record player =
  video1 :: video_el
  video2 :: video_el
  vaporVideo :: video_el
  imageCache :: "string \<Rightarrow> (real \<times> real) option"
  particlesRef :: "particle list"
  grainCacheRef :: bool
  lastActiveSceneId :: "string option"
  isPlaying :: bool
  isExporting :: bool
  isExportingRef :: bool
  frameRequested :: bool

definition width :: "props \<Rightarrow> real" where
  "width pr = fst (getDimensions (aspectRatio pr))"

definition height :: "props \<Rightarrow> real" where
  "height pr = snd (getDimensions (aspectRatio pr))"

section \<open>Player: drawing a scene\<close>

definition drawMediaToCanvas ::
    "props \<Rightarrow> media \<Rightarrow> real \<times> real \<Rightarrow> real \<Rightarrow> real \<Rightarrow> real \<Rightarrow> real \<Rightarrow> canvas_op list" where
  "drawMediaToCanvas pr m dims scale opacity xOffset yOffset =
     (let mWidth = fst dims; mHeight = snd dims in
      if mWidth = 0 \<or> mHeight = 0 then []
      else
        let baseScale = max (width pr / mWidth) (height pr / mHeight);
            finalScale = baseScale * scale;
            drawWidth = mWidth * finalScale;
            drawHeight = mHeight * finalScale;
            x = (width pr - drawWidth) / 2 + xOffset;
            y = (height pr - drawHeight) / 2 + yOffset
        in [Save, GlobalAlpha opacity, DrawImage m x y drawWidth drawHeight, Restore])"

text \<open>The ease-in-out curve and the pan direction of the parallax motion.\<close>

definition ease_in_out :: "real \<Rightarrow> real" where
  "ease_in_out progress =
     (if progress < 0.5 then 2 * progress * progress else - 1 + (4 - 2 * progress) * progress)"

text \<open>
  \<open>scene.id.charCodeAt(scene.id.length - 1) % 2 === 0 ? 1 : -1\<close>; on the empty
  identifier the character code is NaN and the result is \<open>-1\<close>.
\<close>

definition pan_seed :: "string \<Rightarrow> real" where
  "pan_seed ident =
     (if ident \<noteq> [] \<and> (of_char (last ident) :: nat) mod 2 = 0 then 1 else - 1)"

text \<open>The opacity and the zoom factor chosen by the transition logic.\<close>

definition transition_opacity :: "transition \<Rightarrow> bool \<Rightarrow> real \<Rightarrow> real" where
  "transition_opacity t isOutgoing transitionProgress =
     (if isOutgoing then
        (if t = ZoomThrough then 1 - transitionProgress
         else if t = PolygonWipe then 1.0
         else 1 - transitionProgress)
      else
        (if t = ZoomThrough then transitionProgress
         else if t = PolygonWipe then 1.0
         else transitionProgress))"

definition transition_zoom :: "transition \<Rightarrow> bool \<Rightarrow> real \<Rightarrow> real" where
  "transition_zoom t isOutgoing transitionProgress =
     (if isOutgoing \<and> t = ZoomThrough then 1 + transitionProgress * 4 else 1)"

text \<open>The six vertices of the hexagonal wipe, the first moved to, the others drawn to.\<close>

definition hexagon_vertex :: "props \<Rightarrow> real \<Rightarrow> nat \<Rightarrow> real \<times> real" where
  "hexagon_vertex pr wipeSize i =
     (let angle = (real i * pi) / 3
      in (width pr / 2 + wipeSize * cos angle, height pr / 2 + wipeSize * sin angle))"

definition hexagon_path :: "props \<Rightarrow> real \<Rightarrow> canvas_op list" where
  "hexagon_path pr wipeSize =
     map (\<lambda>i. let v = hexagon_vertex pr wipeSize i
              in if i = 0 then MoveTo (fst v) (snd v) else LineTo (fst v) (snd v)) [0..<6]"

definition wipe_clip :: "props \<Rightarrow> transition \<Rightarrow> bool \<Rightarrow> real \<Rightarrow> canvas_op list" where
  "wipe_clip pr t isOutgoing transitionProgress =
     (if \<not> isOutgoing \<and> t = PolygonWipe then
        (let p = transitionProgress;
             wipeSize = max (width pr) (height pr) * p * 1.5
         in [BeginPath] @ hexagon_path pr wipeSize @ [ClosePath, Clip])
      else [])"

definition assembly_triangle :: "props \<Rightarrow> real \<times> real \<times> real \<Rightarrow> canvas_op list" where
  "assembly_triangle pr r =
     (let x = fst r * width pr; y = fst (snd r) * height pr; s = snd (snd r) * 150
      in [BeginPath, MoveTo x y, LineTo (x + s) (y + s), LineTo (x - s) (y + s), Fill])"

definition polygon_assembly ::
    "props \<Rightarrow> (nat \<Rightarrow> real \<times> real \<times> real) \<Rightarrow> bool \<Rightarrow> real \<Rightarrow> canvas_op list" where
  "polygon_assembly pr rnd isOutgoing elapsed =
     (if enablePolygonAssembly pr \<and> \<not> isOutgoing \<and> elapsed < 1.0 then
        (let count = nat \<lfloor>20 * (1.0 - elapsed)\<rfloor>
         in [Save, FillStyle (Rgba 255 255 255 (0.3 * (1.0 - elapsed)))]
            @ concat (map (\<lambda>i. assembly_triangle pr (rnd i)) [0..<count])
            @ [Restore])
      else [])"

subsection \<open>Velocity sync\<close>

text \<open>
  \<open>v.duration || sceneDuration\<close>: the scene's duration stands in for a clip duration
  of 0 or NaN. Assigning \<open>currentTime\<close> is modelled as taking effect at once.
\<close>

definition clip_duration_or :: "real option \<Rightarrow> real \<Rightarrow> real" where
  "clip_duration_or d sceneDuration =
     (case d of None \<Rightarrow> sceneDuration | Some x \<Rightarrow> if x = 0 then sceneDuration else x)"

definition velocity_sync :: "real \<Rightarrow> real \<Rightarrow> video_el \<Rightarrow> video_el" where
  "velocity_sync sceneDuration elapsed v =
     (let baseRate = clip_duration_or (duration v) sceneDuration / sceneDuration;
          targetTime = elapsed * baseRate;
          drift = currentTime v - targetTime
      in if \<bar>drift\<bar> > 0.5 then v\<lparr>currentTime := targetTime\<rparr>
         else if \<bar>drift\<bar> > 0.05 then
           v\<lparr>playbackRate := (if drift > 0 then baseRate * 0.95 else baseRate * 1.05)\<rparr>
         else v\<lparr>playbackRate := baseRate\<rparr>)"

datatype slot = Slot1 | Slot2

definition find_slot :: "player \<Rightarrow> scene \<Rightarrow> slot option" where
  "find_slot st sc =
     (if Some (src (video1 st)) = videoClipUrl sc then Some Slot1
      else if Some (src (video2 st)) = videoClipUrl sc then Some Slot2
      else None)"

definition get_slot :: "player \<Rightarrow> slot \<Rightarrow> video_el" where
  "get_slot st k = (case k of Slot1 \<Rightarrow> video1 st | Slot2 \<Rightarrow> video2 st)"

definition set_slot :: "slot \<Rightarrow> video_el \<Rightarrow> player \<Rightarrow> player" where
  "set_slot k v st = (case k of Slot1 \<Rightarrow> st\<lparr>video1 := v\<rparr> | Slot2 \<Rightarrow> st\<lparr>video2 := v\<rparr>)"

text \<open>Layer 2 of a scene: the clip, synchronised and drawn when its slot is ready.\<close>

definition video_layer ::
    "props \<Rightarrow> scene \<Rightarrow> real \<Rightarrow> real \<Rightarrow> real \<Rightarrow> real \<Rightarrow> real \<Rightarrow> real \<Rightarrow> player
       \<Rightarrow> canvas_op list \<times> player" where
  "video_layer pr sc sceneDuration elapsed scale opacity xOffset yOffset st =
     (case find_slot st sc of
        None \<Rightarrow> ([], st)
      | Some k \<Rightarrow>
          if truthy (videoClipUrl sc) \<and> readyState (get_slot st k) \<ge> 2 then
            (let v1 = velocity_sync sceneDuration elapsed (get_slot st k);
                 v2 = (if isPlaying st \<and> paused v1 then v1\<lparr>paused := False\<rparr> else v1)
             in (drawMediaToCanvas pr (VideoMedia (src v2)) (videoWidth v2, videoHeight v2)
                   scale opacity xOffset yOffset,
                 set_slot k v2 st))
          else ([], st))"

definition image_layer ::
    "props \<Rightarrow> scene \<Rightarrow> real \<Rightarrow> real \<Rightarrow> real \<Rightarrow> real \<Rightarrow> player \<Rightarrow> canvas_op list" where
  "image_layer pr sc scale opacity xOffset yOffset st =
     (case imageUrl sc of
        None \<Rightarrow> []
      | Some u \<Rightarrow>
          (case imageCache st u of
             None \<Rightarrow> []
           | Some dims \<Rightarrow>
               if u \<noteq> [] then drawMediaToCanvas pr (ImageMedia u) dims scale opacity xOffset yOffset
               else []))"

definition renderSceneFrame ::
    "props \<Rightarrow> (nat \<Rightarrow> real \<times> real \<times> real) \<Rightarrow> scene \<Rightarrow> real \<Rightarrow> real \<Rightarrow> bool \<Rightarrow> player
       \<Rightarrow> canvas_op list \<times> player" where
  "renderSceneFrame pr rnd sc time transitionProgress isOutgoing st =
     (let sceneDuration = endTime sc - startTime sc;
          elapsed = time - startTime sc;
          progress = min 1 (max 0 (elapsed / sceneDuration));
          moving = (transitionType sc = Parallax25d \<or> kenBurnsStrength pr > 0);
          ease = ease_in_out progress;
          scale0 = (if moving then 1.0 + (kenBurnsStrength pr * 0.15) + (ease * 0.05) else 1.0);
          xOffset = (if moving then ease * 20 * pan_seed (sceneId sc) else 0);
          yOffset = 0;
          scale = scale0 * transition_zoom (transitionType sc) isOutgoing transitionProgress;
          opacity = transition_opacity (transitionType sc) isOutgoing transitionProgress;
          clip = wipe_clip pr (transitionType sc) isOutgoing transitionProgress;
          assembling = polygon_assembly pr rnd isOutgoing elapsed;
          image = image_layer pr sc scale opacity xOffset yOffset st;
          (video, st') = video_layer pr sc sceneDuration elapsed scale opacity xOffset yOffset st
      in ([Save] @ clip @ assembling @ image @ video @ [Restore], st'))"

section \<open>Player: effect layers\<close>

definition spawn_particle :: "props \<Rightarrow> ember_random \<Rightarrow> particle" where
  "spawn_particle pr r =
     \<lparr>p_x = r_x r * width pr, p_y = height pr + 10,
      p_vx = (r_vx r - 0.5) * 1.2, p_vy = - r_vy r * 2.5 - 0.8,
      p_size = r_size r * 2.0 + 0.5, p_life = 180,
      p_green = \<lfloor>r_colour r * 100\<rfloor> + 120\<rparr>"

definition move_particle :: "particle \<Rightarrow> particle" where
  "move_particle p = p\<lparr>p_x := p_x p + p_vx p, p_y := p_y p + p_vy p, p_life := p_life p - 1\<rparr>"

definition draw_particle :: "particle \<Rightarrow> canvas_op list" where
  "draw_particle p =
     (let alpha = min 0.7 (real_of_int (p_life p) / 60)
      in [FillStyle (Rgba 255 (real_of_int (p_green p)) 40 alpha),
          BeginPath, Arc (p_x p) (p_y p) (p_size p) 0 (pi * 2), Fill])"

text \<open>
  The loop \<open>for (let i = length - 1; i >= 0; i--)\<close>: \<open>sweep_particles (Suc i)\<close>
  handles index \<open>i\<close> and goes on downwards; \<open>splice(i, 1)\<close> removes the particle.
\<close>

fun sweep_particles :: "nat \<Rightarrow> particle list \<Rightarrow> canvas_op list \<times> particle list" where
  "sweep_particles 0 ps = ([], ps)"
| "sweep_particles (Suc i) ps =
     (let p = move_particle (ps ! i);
          ps' = (if p_life p \<le> 0 \<or> p_y p < - 20 then take i ps @ drop (Suc i) ps
                 else ps[i := p]);
          (ops, ps'') = sweep_particles i ps'
      in (draw_particle p @ ops, ps''))"

text \<open>The spawn at the head of \<open>updateParticles\<close>.\<close>

definition maybe_spawn :: "props \<Rightarrow> bool \<Rightarrow> ember_random \<Rightarrow> particle list \<Rightarrow> particle list" where
  "maybe_spawn pr isDeterministic r ps =
     (if length ps < 50 \<and> (isDeterministic \<or> r_gate r > 0.6)
      then ps @ [spawn_particle pr r] else ps)"

definition updateParticles ::
    "props \<Rightarrow> bool \<Rightarrow> ember_random \<Rightarrow> particle list \<Rightarrow> canvas_op list \<times> particle list" where
  "updateParticles pr isDeterministic r ps =
     (if \<not> enableEmbers pr then ([], [])
      else
        let ps1 = maybe_spawn pr isDeterministic r ps;
            (ops, ps2) = sweep_particles (length ps1) ps1
        in ([Save, GlobalCompositeOperation ''screen''] @ ops @ [Restore], ps2))"

text \<open>A particle stays in the list when its life is positive and it is not above the top.\<close>

definition alive :: "particle \<Rightarrow> bool" where
  "alive p = (\<not> (p_life p \<le> 0 \<or> p_y p < - 20))"

text \<open>The pattern is taken to exist whenever the grain tile does.\<close>

definition drawFilmGrain :: "props \<Rightarrow> real \<times> real \<Rightarrow> player \<Rightarrow> canvas_op list" where
  "drawFilmGrain pr r st =
     (if \<not> grainCacheRef st then []
      else [Save, GlobalAlpha (filmGrainStrength pr * 0.15), GlobalCompositeOperation ''overlay'',
            Translate (fst r * 256) (snd r * 256), FillStyle GrainPattern,
            FillRect (- 256) (- 256) (width pr + 512) (height pr + 512), Restore])"

section \<open>Player: the two render loops\<close>

fun findIndex :: "('a \<Rightarrow> bool) \<Rightarrow> 'a list \<Rightarrow> nat option" where
  "findIndex P [] = None"
| "findIndex P (x # xs) = (if P x then Some 0 else map_option Suc (findIndex P xs))"

text \<open>
  \<open>nextV.src = url; nextV.load(); nextV.currentTime = 0\<close>: loading resets the
  element, which pauses it and forgets what it had decoded.
\<close>

definition load_clip :: "string \<Rightarrow> video_el \<Rightarrow> video_el" where
  "load_clip url v =
     v\<lparr>src := url, paused := True, readyState := 0, duration := None, currentTime := 0,
       playbackRate := 1, videoWidth := 0, videoHeight := 0\<rparr>"

text \<open>The pre-loading block, which both loops contain.\<close>

definition preload :: "scene \<Rightarrow> player \<Rightarrow> player" where
  "preload sc st =
     (if Some (sceneId sc) \<noteq> lastActiveSceneId st then
        (let st1 = st\<lparr>lastActiveSceneId := Some (sceneId sc)\<rparr>;
             v1Match = (Some (src (video1 st)) = videoClipUrl sc);
             v2Match = (Some (src (video2 st)) = videoClipUrl sc)
         in if \<not> v1Match \<and> \<not> v2Match \<and> truthy (videoClipUrl sc) then
              (if paused (video1 st)
               then st1\<lparr>video1 := load_clip (the (videoClipUrl sc)) (video1 st)\<rparr>
               else st1\<lparr>video2 := load_clip (the (videoClipUrl sc)) (video2 st)\<rparr>)
            else st1)
      else st)"

definition black :: fill where
  "black = Colour ''#000''"

text \<open>
  The black frame drawn when no scene is active or the active scene has no asset; both
  loops contain it.
\<close>

definition fallback_fill :: "props \<Rightarrow> nat option \<Rightarrow> canvas_op list" where
  "fallback_fill pr idx =
     (if (case idx of None \<Rightarrow> True
          | Some i \<Rightarrow> \<not> truthy (imageUrl (scenes pr ! i)) \<and> \<not> truthy (videoClipUrl (scenes pr ! i)))
      then [FillStyle black, FillRect 0 0 (width pr) (height pr)] else [])"

text \<open>
  The effect passes of the interactive loop, after the scene content: embers, the
  ambient overlay video, film grain, letterboxing.
\<close>

definition draw_effects ::
    "props \<Rightarrow> frame_random \<Rightarrow> player \<Rightarrow> canvas_op list \<times> particle list" where
  "draw_effects pr rnd st =
     (let (embers, ps) =
            (if enableEmbers pr then updateParticles pr False (r_ember rnd) (particlesRef st)
             else ([], particlesRef st));
          vapor =
            (if enableVaporOverlay pr \<and> readyState (vaporVideo st) \<ge> 2 then
               [Save, GlobalAlpha (vaporOverlayOpacity pr), GlobalCompositeOperation ''screen'',
                DrawImage VaporMedia 0 0 (width pr) (height pr), Restore]
             else []);
          grain = (if filmGrainStrength pr > 0 then drawFilmGrain pr (r_grain rnd) st else []);
          letterbox =
            (if enableLetterboxing pr then
               (let barHeight = height pr * 0.1
                in [FillStyle black, FillRect 0 0 (width pr) barHeight,
                    FillRect 0 (height pr - barHeight) (width pr) barHeight])
             else [])
      in (embers @ vapor @ grain @ letterbox, ps))"

text \<open>
  The interactive loop. \<open>mounted\<close> says that the canvas, its context and the audio
  element exist.
\<close>

definition draw ::
    "props \<Rightarrow> frame_random \<Rightarrow> bool \<Rightarrow> audio_el \<Rightarrow> player \<Rightarrow> canvas_op list \<times> player" where
  "draw pr rnd mounted audio st =
     (if \<not> mounted \<or> isExporting st then ([], st)
      else
        let currentT = audio_currentTime audio;
            idx = findIndex (\<lambda>s. currentT \<ge> startTime s \<and> currentT < endTime s) (scenes pr);
            st1 = (case idx of None \<Rightarrow> st | Some i \<Rightarrow> preload (scenes pr ! i) st);
            fallback = fallback_fill pr idx;
            (content, st2) =
              (case idx of
                 None \<Rightarrow> ([], st1)
               | Some i \<Rightarrow>
                   (let activeScene = scenes pr ! i;
                        tIn = currentT - startTime activeScene;
                        clear = [FillStyle black, FillRect 0 0 (width pr) (height pr)]
                    in if i > 0 \<and> tIn < TRANSITION_DURATION then
                         (let prevScene = scenes pr ! (i - 1);
                              transitionProgress = tIn / TRANSITION_DURATION;
                              (outgoing, sta) =
                                 renderSceneFrame pr (r_triangle rnd) prevScene currentT
                                   transitionProgress True st1;
                              (incoming, stb) =
                                 renderSceneFrame pr (r_triangle rnd) activeScene currentT
                                   transitionProgress False sta
                          in (clear @ outgoing @ incoming, stb))
                       else
                         (let (stable, sta) =
                                 renderSceneFrame pr (r_triangle rnd) activeScene currentT 1.0
                                   False st1
                          in (clear @ stable, sta))));
            (effects, ps) = draw_effects pr rnd st2;
            st3 = st2\<lparr>particlesRef := ps\<rparr>;
            st4 = (if \<not> audio_paused audio \<and> \<not> audio_ended audio
                   then st3\<lparr>frameRequested := True\<rparr>
                   else st3\<lparr>isPlaying := False,
                           video1 := (video1 st3)\<lparr>paused := True\<rparr>,
                           video2 := (video2 st3)\<lparr>paused := True\<rparr>\<rparr>)
        in (fallback @ content @ effects, st4))"

subsection \<open>Export\<close>

datatype recorder_state = Inactive | Recording

text \<open>
  What \<open>handleExport\<close> acquires: the recorder and the audio context, with the length
  of the narration and the context time at which the export started.
\<close>

record export_session =
  recorder :: recorder_state
  audioCtxClosed :: bool
  totalT :: real
  startT :: real
  downloads :: nat

text \<open>
  \<open>recorder.stop()\<close> and the \<open>onstop\<close> handler it triggers: the file is offered,
  the export flags are cleared and the audio context is closed.
\<close>

definition recorder_stop :: "player \<times> export_session \<Rightarrow> player \<times> export_session" where
  "recorder_stop s =
     (case s of (st, sess) \<Rightarrow>
        (st\<lparr>isExporting := False, isExportingRef := False\<rparr>,
         sess\<lparr>recorder := Inactive, downloads := Suc (downloads sess), audioCtxClosed := True\<rparr>))"

datatype loop_outcome = Cancelled | NoContext | Rescheduled | Finished

text \<open>The effect passes of the export loop, after the scene content.\<close>

definition export_effects ::
    "props \<Rightarrow> frame_random \<Rightarrow> player \<Rightarrow> canvas_op list \<times> particle list" where
  "export_effects pr rnd st =
     (let (embers, ps) =
            (if enableEmbers pr then updateParticles pr True (r_ember rnd) (particlesRef st)
             else ([], particlesRef st));
          grain = (if filmGrainStrength pr > 0 then drawFilmGrain pr (r_grain rnd) st else [])
      in (embers @ grain, ps))"

text \<open>
  One call of \<open>exportLoop\<close> at audio-context time \<open>audioCtxTime\<close>. \<open>mounted\<close> says
  that the canvas and its context exist.
\<close>

definition exportLoop ::
    "props \<Rightarrow> frame_random \<Rightarrow> bool \<Rightarrow> real \<Rightarrow> player \<Rightarrow> export_session
       \<Rightarrow> canvas_op list \<times> player \<times> export_session \<times> loop_outcome" where
  "exportLoop pr rnd mounted audioCtxTime st sess =
     (if \<not> isExportingRef st then ([], st, sess, Cancelled)
      else if \<not> mounted then ([], st, sess, NoContext)
      else
        let currentT = audioCtxTime - startT sess;
            idx = findIndex (\<lambda>s. currentT \<ge> startTime s \<and> currentT < endTime s) (scenes pr);
            fallback = fallback_fill pr idx;
            (content, st2) =
              (case idx of
                 None \<Rightarrow> ([], st)
               | Some i \<Rightarrow>
                   (let s = scenes pr ! i;
                        st1 = preload s st;
                        tIn = currentT - startTime s
                    in if i > 0 \<and> tIn < TRANSITION_DURATION then
                         (let (outgoing, sta) =
                                 renderSceneFrame pr (r_triangle rnd) (scenes pr ! (i - 1)) currentT
                                   (tIn / TRANSITION_DURATION) True st1;
                              (incoming, stb) =
                                 renderSceneFrame pr (r_triangle rnd) s currentT
                                   (tIn / TRANSITION_DURATION) False sta
                          in (outgoing @ incoming, stb))
                       else renderSceneFrame pr (r_triangle rnd) s currentT 1.0 False st1));
            (effects, ps) = export_effects pr rnd st2;
            st3 = st2\<lparr>particlesRef := ps\<rparr>;
            ops = fallback @ content @ effects
        in if currentT < totalT sess then (ops, st3\<lparr>frameRequested := True\<rparr>, sess, Rescheduled)
           else (case recorder_stop (st3, sess) of (st4, sess') \<Rightarrow> (ops, st4, sess', Finished)))"

text \<open>
  What a call of \<open>handleExport\<close> leaves behind. \<open>AlreadyExporting\<close>: an export was
  running and the call returned at its first line. \<open>EngineCrash\<close>: a step of the set-up
  threw. The audio context is created first, before the narration is fetched, and the
  \<open>catch\<close> block does not close it: the field is the closed flag of the context that
  is left behind. \<open>Started\<close>: the session of the export that is now running.
\<close>

datatype export_start = AlreadyExporting | EngineCrash bool | Started export_session

text \<open>
  The start of \<open>handleExport\<close>, up to its direct call of \<open>exportLoop\<close>: nothing
  happens while an export is running; otherwise the flags are set, the audio context is
  opened and, when the narration is fetched and decoded (\<open>narrationDuration\<close> is its
  length, \<open>None\<close> when a step of the set-up throws), the recorder and the audio source
  are started. A failure in the set-up clears the flags again and closes nothing.
\<close>

definition handleExport :: "real option \<Rightarrow> real \<Rightarrow> player \<Rightarrow> player \<times> export_start" where
  "handleExport narrationDuration audioCtxTime st =
     (if isExportingRef st then (st, AlreadyExporting)
      else
        let st1 = st\<lparr>isExportingRef := True, isExporting := True\<rparr>;
            contextClosed = False
        in case narrationDuration of
             None \<Rightarrow> (st1\<lparr>isExporting := False, isExportingRef := False\<rparr>, EngineCrash contextClosed)
           | Some d \<Rightarrow>
               (st1, Started \<lparr>recorder = Recording, audioCtxClosed = contextClosed, totalT = d,
                             startT = audioCtxTime, downloads = 0\<rparr>))"

text \<open>
  One export, from the session that \<open>handleExport\<close> started. \<open>loopDue\<close> says that a
  call of \<open>exportLoop\<close> is due: the direct call at the end of the set-up, or the
  animation frame that the previous call requested. Two things happen to a running
  export. The due call of \<open>exportLoop\<close> runs, with the random draws of the frame,
  whether the canvas context exists, and the time of the audio context. Or the recorder
  stops without \<open>recorder.stop()\<close> having been called (it fails, or the tracks of its
  stream end), and the \<open>onstop\<close> handler runs all the same.
\<close>

record export_run =
  run_player :: player
  run_session :: export_session
  loopDue :: bool

datatype export_event = Frame frame_random bool real | RecorderStopped

definition export_step :: "props \<Rightarrow> export_run \<Rightarrow> export_event \<Rightarrow> export_run" where
  "export_step pr run ev =
     (case ev of
        Frame rnd mounted audioCtxTime \<Rightarrow>
          if loopDue run then
            (case exportLoop pr rnd mounted audioCtxTime (run_player run) (run_session run) of
               (ops, st, sess, outcome) \<Rightarrow>
                 \<lparr>run_player = st, run_session = sess, loopDue = (outcome = Rescheduled)\<rparr>)
          else run
      | RecorderStopped \<Rightarrow>
          if recorder (run_session run) = Recording then
            (case recorder_stop (run_player run, run_session run) of
               (st, sess) \<Rightarrow> run\<lparr>run_player := st, run_session := sess\<rparr>)
          else run)"

definition export_events :: "props \<Rightarrow> export_event list \<Rightarrow> export_run \<Rightarrow> export_run" where
  "export_events pr evs run = foldl (export_step pr) run evs"

section \<open>Observations on a list of canvas calls\<close>

text \<open>The values \<open>globalAlpha\<close> is set to, and the media drawn, in order.\<close>

fun alphas :: "canvas_op list \<Rightarrow> real list" where
  "alphas [] = []"
| "alphas (GlobalAlpha a # ops) = a # alphas ops"
| "alphas (_ # ops) = alphas ops"

fun drawn_media :: "canvas_op list \<Rightarrow> media list" where
  "drawn_media [] = []"
| "drawn_media (DrawImage m _ _ _ _ # ops) = m # drawn_media ops"
| "drawn_media (_ # ops) = drawn_media ops"

text \<open>
  Running the ember update over a list of ticks, each with the configuration, the mode
  and the random draws of its call, keeping every population.
\<close>

fun ember_run ::
    "(props \<times> bool \<times> ember_random) list \<Rightarrow> particle list \<Rightarrow> particle list list" where
  "ember_run [] ps = []"
| "ember_run (tick # ticks) ps =
     (let ps' = snd (updateParticles (fst tick) (fst (snd tick)) (snd (snd tick)) ps)
      in ps' # ember_run ticks ps')"

section \<open>The specification's wording of the velocity sync\<close>

text \<open>
  The rule as the specification words it, with \<open>baseRate = clipDuration / sceneDuration\<close>
  taken from the clip's own duration. It is written from the specification, to be
  compared with \<open>velocity_sync\<close>.
\<close>

definition spec_velocity_sync :: "real \<Rightarrow> real \<Rightarrow> real \<Rightarrow> video_el \<Rightarrow> video_el" where
  "spec_velocity_sync clipDuration sceneDuration elapsed v =
     (let baseRate = clipDuration / sceneDuration;
          targetPosition = elapsed * baseRate;
          drift = currentTime v - targetPosition
      in if \<bar>drift\<bar> > 0.5 then v\<lparr>currentTime := targetPosition\<rparr>
         else if \<bar>drift\<bar> > 0.05 then
           v\<lparr>playbackRate := (if drift > 0 then baseRate * 0.95 else baseRate * 1.05)\<rparr>
         else v\<lparr>playbackRate := baseRate\<rparr>)"

section \<open>Example inputs\<close>

text \<open>A configuration with the embers on and one set of random draws, for the examples.\<close>

definition demo_props :: props where
  "demo_props =
     \<lparr>scenes = [], aspectRatio = Ratio_16_9, enableEmbers = True, kenBurnsStrength = 0,
      filmGrainStrength = 0, enableVaporOverlay = False, vaporOverlayOpacity = 0.5,
      enableLetterboxing = False, enablePolygonAssembly = False\<rparr>"

definition demo_ember_random :: ember_random where
  "demo_ember_random =
     \<lparr>r_gate = 0.25, r_x = 0.5, r_vx = 0.5, r_vy = 0.4, r_size = 0.5, r_colour = 0.3\<rparr>"


text \<open>
  Two scenes \<open>[0, 5)\<close> and \<open>[5, 10)\<close> with the standard fade, each with a loaded
  1280 by 720 image; a player with idle video slots, the overlay element among them (the
  component gives it no source, so it never becomes ready); one frame's random draws.
\<close>

definition idle_video :: video_el where
  "idle_video =
     \<lparr>src = [], paused = True, readyState = 0, duration = None, currentTime = 0,
      playbackRate = 1, videoWidth = 0, videoHeight = 0\<rparr>"

definition demo_player :: player where
  "demo_player =
     \<lparr>video1 = idle_video, video2 = idle_video, vaporVideo = idle_video,
      imageCache = (\<lambda>u. if u = ''a.png'' \<or> u = ''b.png'' then Some (1280, 720) else None),
      particlesRef = [], grainCacheRef = True, lastActiveSceneId = None,
      isPlaying = True, isExporting = False, isExportingRef = False, frameRequested = False\<rparr>"

definition demo_random :: frame_random where
  "demo_random =
     \<lparr>r_triangle = (\<lambda>i. (0.5, 0.5, 0.5)), r_ember = demo_ember_random, r_grain = (0.5, 0.5)\<rparr>"

definition demo_audio :: "real \<Rightarrow> audio_el" where
  "demo_audio t = \<lparr>audio_currentTime = t, audio_paused = False, audio_ended = False\<rparr>"

definition scene_a :: scene where
  "scene_a =
     \<lparr>sceneId = ''scene-1'', startTime = 0, endTime = 5, imageUrl = Some ''a.png'',
      videoClipUrl = None, transitionType = Standard\<rparr>"

definition scene_b :: scene where
  "scene_b =
     \<lparr>sceneId = ''scene-2'', startTime = 5, endTime = 10, imageUrl = Some ''b.png'',
      videoClipUrl = None, transitionType = Standard\<rparr>"

definition fade_props :: props where
  "fade_props = demo_props\<lparr>scenes := [scene_a, scene_b], enableEmbers := False\<rparr>"


text \<open>A second scene with the polygon wipe, and the configuration showing it.\<close>

definition scene_w :: scene where
  "scene_w =
     \<lparr>sceneId = ''scene-3'', startTime = 5, endTime = 10, imageUrl = Some ''b.png'',
      videoClipUrl = None, transitionType = PolygonWipe\<rparr>"

definition wipe_props :: props where
  "wipe_props = demo_props\<lparr>scenes := [scene_a, scene_w], enableEmbers := False\<rparr>"


text \<open>
  A scene \<open>[0, 5)\<close> with a video clip, and a player whose first slot holds that clip,
  ready, with a given duration and position.
\<close>

definition clip_video :: "real option \<Rightarrow> real \<Rightarrow> video_el" where
  "clip_video d pos =
     \<lparr>src = ''blob:clip'', paused = False, readyState = 4, duration = d, currentTime = pos,
      playbackRate = 1, videoWidth = 1280, videoHeight = 720\<rparr>"

definition clip_player :: "real option \<Rightarrow> real \<Rightarrow> player" where
  "clip_player d pos = demo_player\<lparr>video1 := clip_video d pos\<rparr>"

definition scene_v :: scene where
  "scene_v =
     \<lparr>sceneId = ''scene-4'', startTime = 0, endTime = 5, imageUrl = None,
      videoClipUrl = Some ''blob:clip'', transitionType = Standard\<rparr>"


text \<open>
  A configuration with one image scene, the ambient overlay and the letterboxing on; a
  player in the middle of an export and the session it acquired.
\<close>

definition cinema_props :: props where
  "cinema_props =
     demo_props\<lparr>scenes := [scene_a], enableEmbers := False, enableVaporOverlay := True,
       enableLetterboxing := True\<rparr>"

definition exporting_player :: player where
  "exporting_player = demo_player\<lparr>isExporting := True, isExportingRef := True\<rparr>"

definition demo_session :: export_session where
  "demo_session =
     \<lparr>recorder = Recording, audioCtxClosed = False, totalT = 10, startT = 0, downloads = 0\<rparr>"


section \<open>WAV header: encoding and reading back\<close>

lemma le16_roundtrip:
  "unat (ucast (w :: 16 word) :: byte) + 256 * unat (ucast (drop_bit 8 w) :: byte) = unat w"
proof -
  have "unat w < 65536" using unsigned_less [of w, where ?'a = nat] by simp
  then have "unat w div 256 mod 256 = unat w div 256" by simp
  then have "unat w mod 256 + 256 * (unat w div 256 mod 256) = unat w" by simp
  then show ?thesis
    by (simp only: unsigned_ucast_eq unat_drop_bit_eq) (simp add: take_bit_eq_mod drop_bit_eq_div)
qed

lemma le32_arith:
  fixes n :: nat
  shows "n mod 256 + 256 * (n div 256 mod 256) + 65536 * (n div 65536 mod 256)
           + 16777216 * (n div 16777216) = n"
proof -
  have "n div 65536 div 256 = n div 16777216" by (simp add: div_mult2_eq [symmetric])
  then have b: "n div 65536 = n div 16777216 * 256 + n div 65536 mod 256"
    using div_mult_mod_eq [of "n div 65536" 256] by simp
  have "n div 256 div 256 = n div 65536" by (simp add: div_mult2_eq [symmetric])
  then have c: "n div 256 = n div 65536 * 256 + n div 256 mod 256"
    using div_mult_mod_eq [of "n div 256" 256] by simp
  have d: "n = n div 256 * 256 + n mod 256" by simp
  show ?thesis using b c d by linarith
qed

lemma le32_roundtrip:
  "unat (ucast (w :: 32 word) :: byte) + 256 * unat (ucast (drop_bit 8 w) :: byte)
     + 65536 * unat (ucast (drop_bit 16 w) :: byte)
     + 16777216 * unat (ucast (drop_bit 24 w) :: byte) = unat w"
proof -
  have "unat w < 4294967296" using unsigned_less [of w, where ?'a = nat] by simp
  then have "unat w div 16777216 mod 256 = unat w div 16777216" by simp
  with le32_arith [of "unat w"] show ?thesis
    by (simp only: unsigned_ucast_eq unat_drop_bit_eq) (simp add: take_bit_eq_mod drop_bit_eq_div)
qed


lemma zeros44:
  "replicate 44 (0::byte) =
     [0,0,0,0,0,0,0,0,0,0,0,0,0,0,0,0,0,0,0,0,0,0,0,0,0,0,0,0,0,0,0,0,0,0,0,0,0,0,0,0,0,0,0,0]"
  by (simp add: eval_nat_numeral)

lemma ToUint32_16: "ToUint32 16 = 16"
  by (simp add: ToUint32_def js_trunc_def)

lemma wavHeader_bytes:
  "wavHeader n sr =
    (let a = ToUint32 (36 + real n); f = ToUint32 sr; r = ToUint32 (sr * 2); d = ToUint32 (real n) in
     [82, 73, 70, 70,
      ucast a, ucast (drop_bit 8 a), ucast (drop_bit 16 a), ucast (drop_bit 24 a),
      87, 65, 86, 69, 102, 109, 116, 32,
      16, 0, 0, 0, 1, 0, 1, 0,
      ucast f, ucast (drop_bit 8 f), ucast (drop_bit 16 f), ucast (drop_bit 24 f),
      ucast r, ucast (drop_bit 8 r), ucast (drop_bit 16 r), ucast (drop_bit 24 r),
      2, 0, 16, 0, 100, 97, 116, 97,
      ucast d, ucast (drop_bit 8 d), ucast (drop_bit 16 d), ucast (drop_bit 24 d)])"
  unfolding wavHeader_def setUint32_def setUint16_def Let_def zeros44
  by (simp add: setUint8_def ToUint16_def ToUint8_def js_trunc_def ToUint32_16)


lemma parse_createWavBlob:
  "parse_wav_header (blob_bytes (createWavBlob payload sr)) =
     Some \<lparr>riffSize = unat (ToUint32 (36 + real (length payload))), fmtSize = 16,
            audioFormat = 1, numChannels = 1, wavSampleRate = unat (ToUint32 sr),
            byteRate = unat (ToUint32 (sr * 2)), blockAlign = 2, bitsPerSample = 16,
            dataSize = unat (ToUint32 (real (length payload)))\<rparr>"
  by (simp add: createWavBlob_def parse_wav_header_def wavHeader_bytes Let_def tag_at_def
      getUint32LE_def getUint16LE_def le32_roundtrip)

lemma ToUint32_nat: "k < 4294967296 \<Longrightarrow> unat (ToUint32 (real k)) = k"
  by (simp add: ToUint32_def js_trunc_def unat_of_nat)

lemma length_int16_buffer: "length (int16_buffer pcm) = 2 * length pcm"
  by (induction pcm) (simp_all add: int16_buffer_def)

lemma createWavBlob_split:
  "take 44 (blob_bytes (createWavBlob payload sr)) = wavHeader (length payload) sr \<and>
   drop 44 (blob_bytes (createWavBlob payload sr)) = payload"
  by (simp add: createWavBlob_def wavHeader_bytes Let_def)

text \<open>
  Claim C5 (as amended). For every Int16 sample array and every sample rate that is a
  whole number below \<open>2^32\<close>, with \<open>36 + 2 * sampleCount\<close> below \<open>2^32\<close>,
  the blob made by \<open>createWavBlob\<close> is a 44-byte header followed by the payload,
  and reading the header back gives channel count 1, 16 bits per sample, the given sample
  rate, a data chunk size of \<open>2 * sampleCount\<close> and a RIFF size of 36 plus the payload
  byte length.
\<close>

theorem wav_header_roundtrip:
  assumes "sampleRate = real r" and "r < 4294967296"
    and "36 + 2 * length pcm < 4294967296"
  shows "\<exists>h. parse_wav_header (blob_bytes (createWavBlob (int16_buffer pcm) sampleRate)) = Some h
           \<and> numChannels h = 1 \<and> bitsPerSample h = 16 \<and> wavSampleRate h = r
           \<and> dataSize h = 2 * length pcm \<and> riffSize h = 36 + 2 * length pcm
           \<and> length (blob_bytes (createWavBlob (int16_buffer pcm) sampleRate)) = 44 + 2 * length pcm"
proof -
  have a: "unat (ToUint32 sampleRate) = r" using assms ToUint32_nat by simp
  have b: "unat (ToUint32 (real (2 * length pcm))) = 2 * length pcm"
    using assms by (intro ToUint32_nat) simp
  have "36 + real (2 * length pcm) = real (36 + 2 * length pcm)" by simp
  then have c: "unat (ToUint32 (36 + real (2 * length pcm))) = 36 + 2 * length pcm"
    using assms ToUint32_nat [of "36 + 2 * length pcm"] by simp
  have d: "length (blob_bytes (createWavBlob (int16_buffer pcm) sampleRate)) = 44 + 2 * length pcm"
    by (simp add: createWavBlob_def wavHeader_bytes Let_def length_int16_buffer)
  show ?thesis
    using a b c d by (simp add: parse_createWavBlob length_int16_buffer)
qed

text \<open>The theorem at three samples and 24000 Hz.\<close>

theorem wav_header_roundtrip_witness:
  "\<exists>h. parse_wav_header (blob_bytes (createWavBlob (int16_buffer [1, 2, 3]) 24000)) = Some h
           \<and> numChannels h = 1 \<and> bitsPerSample h = 16 \<and> wavSampleRate h = 24000
           \<and> dataSize h = 6 \<and> riffSize h = 42
           \<and> length (blob_bytes (createWavBlob (int16_buffer [1, 2, 3]) 24000)) = 50"
  using wav_header_roundtrip [of 24000 24000 "[1, 2, 3]"] by simp

text \<open>
  Without the bounds the fields wrap, as 32-bit fields do: a sample rate of \<open>2^32\<close>
  reads back as 0, and a payload of \<open>2^32\<close> bytes gives a RIFF size of 36.
\<close>

theorem wav_header_wraps_counterexample:
  "map_option wavSampleRate
     (parse_wav_header (blob_bytes (createWavBlob (int16_buffer [1, 2, 3]) 4294967296))) = Some 0
   \<and> map_option riffSize
     (parse_wav_header (blob_bytes (createWavBlob (replicate 4294967296 0) 24000))) = Some 36"
  by (simp add: parse_createWavBlob ToUint32_def js_trunc_def)


section \<open>Silence trimmer: the scan invariant\<close>

lemma scan_silent_block:
  "\<forall>x\<in>set xs. \<bar>x\<bar> \<le> threshold \<Longrightarrow> isSilent st \<Longrightarrow> scan_loop sr len i xs st = st"
  by (induction xs arbitrary: i) (simp_all add: scan_step_def)

lemma all_silent_no_segments:
  "\<forall>x\<in>set channelData. \<bar>x\<bar> \<le> threshold \<Longrightarrow> computeKeepSegments sr channelData = []"
  by (simp add: computeKeepSegments_def scan_silent_block initial_scan_def close_final_def)

lemma segs_chain_snoc:
  "segs_chain lo segs \<Longrightarrow> lo \<le> s \<Longrightarrow> list_all (\<lambda>seg. snd seg \<le> s) segs \<Longrightarrow> s < e
     \<Longrightarrow> segs_chain lo (segs @ [(s, e)])"
  by (induction segs arbitrary: lo) auto

lemma list_all_mono_le:
  "list_all (\<lambda>seg. snd seg \<le> (a::real)) segs \<Longrightarrow> a \<le> b \<Longrightarrow> list_all (\<lambda>seg. snd seg \<le> b) segs"
  by (induction segs) auto

lemma scan_step_inv:
  assumes inv: "scan_inv sr len i st" and i: "i < len" and sr: "0 \<le> sr"
  shows "scan_inv sr len (Suc i) (scan_step sr len i x st)"
proof (cases "\<bar>x\<bar> > threshold")
  case True
  show ?thesis
  proof (cases "currentSegmentStart st = - 1")
    case c: True
    have m: "max 0 (real i - paddingSamples sr) \<noteq> - 1" by simp
    have le: "max 0 (real i - paddingSamples sr) \<le> real i"
      using sr by (simp add: paddingSamples_def)
    have "list_all (\<lambda>seg. snd seg \<le> real i - paddingSamples sr) (keepSegments st)"
      using inv c by (simp add: scan_inv_def)
    then have "list_all (\<lambda>seg. snd seg \<le> max 0 (real i - paddingSamples sr)) (keepSegments st)"
      by (rule list_all_mono_le) simp
    then show ?thesis
      using inv True c m le by (simp add: scan_inv_def scan_step_def)
  next
    case c: False
    then show ?thesis
      using inv True by (auto simp add: scan_inv_def scan_step_def)
  qed
next
  case loud: False
  show ?thesis
  proof (cases "\<not> isSilent st \<and> real i - real (silenceStart st) > minSilenceSamples sr")
    case cut: True
    define e where "e = min (real len) (real i - minSilenceSamples sr + paddingSamples sr)"
    have c: "currentSegmentStart st \<noteq> - 1" using inv cut by (auto simp: scan_inv_def)
    then have facts: "0 \<le> currentSegmentStart st" "currentSegmentStart st \<le> real (silenceStart st)"
      "silenceStart st < i" "list_all (\<lambda>seg. snd seg \<le> currentSegmentStart st) (keepSegments st)"
      "segs_chain 0 (keepSegments st)" "list_all (\<lambda>seg. snd seg \<le> real len) (keepSegments st)"
      using inv by (simp_all add: scan_inv_def)
    have lt: "currentSegmentStart st < e"
      using facts cut i sr by (simp add: e_def paddingSamples_def minSilenceSamples_def)
    have e1: "e \<le> real len" by (simp add: e_def)
    have e2: "e \<le> real (Suc i) - paddingSamples sr"
      using sr by (simp add: e_def paddingSamples_def minSilenceSamples_def min_def)
    have ch: "segs_chain 0 (keepSegments st @ [(currentSegmentStart st, e)])"
      using facts lt by (intro segs_chain_snoc) simp_all
    have "list_all (\<lambda>seg. snd seg \<le> real (Suc i) - paddingSamples sr) (keepSegments st)"
      using facts(4) by (rule list_all_mono_le) (use lt e2 in linarith)
    then show ?thesis
      using loud cut ch e1 e2 facts unfolding e_def
      by (simp add: scan_inv_def scan_step_def)
  next
    case nocut: False
    have st: "scan_step sr len i x st = st" using loud nocut by (auto simp add: scan_step_def)
    show ?thesis
    proof (cases "currentSegmentStart st = - 1")
      case True
      then have "list_all (\<lambda>seg. snd seg \<le> real i - paddingSamples sr) (keepSegments st)"
        using inv by (simp add: scan_inv_def)
      then have "list_all (\<lambda>seg. snd seg \<le> real (Suc i) - paddingSamples sr) (keepSegments st)"
        by (rule list_all_mono_le) simp
      then show ?thesis using inv True by (simp add: st scan_inv_def)
    next
      case False
      then show ?thesis using inv by (auto simp add: st scan_inv_def)
    qed
  qed
qed

lemma scan_loop_inv:
  "scan_inv sr len i st \<Longrightarrow> i + length xs = len \<Longrightarrow> 0 \<le> sr
     \<Longrightarrow> scan_inv sr len len (scan_loop sr len i xs st)"
proof (induction xs arbitrary: i st)
  case Nil
  then show ?case by simp
next
  case (Cons x xs)
  have "scan_inv sr len (Suc i) (scan_step sr len i x st)"
    using Cons.prems by (intro scan_step_inv) simp_all
  then show ?case using Cons.prems Cons.IH [of "Suc i"] by simp
qed

lemma initial_scan_inv: "scan_inv sr len 0 initial_scan"
  by (simp add: scan_inv_def initial_scan_def)

lemma keepSegments_chain:
  assumes "0 \<le> sr"
  shows "segs_chain 0 (computeKeepSegments sr cd) \<and>
         list_all (\<lambda>seg. snd seg \<le> real (length cd)) (computeKeepSegments sr cd)"
proof -
  define st where "st = scan_loop sr (length cd) 0 cd initial_scan"
  have inv: "scan_inv sr (length cd) (length cd) st"
    unfolding st_def using assms by (intro scan_loop_inv initial_scan_inv) simp_all
  show ?thesis
  proof (cases "currentSegmentStart st = - 1")
    case True
    then show ?thesis using inv
      by (simp add: computeKeepSegments_def close_final_def st_def [symmetric] scan_inv_def)
  next
    case False
    then have f: "0 \<le> currentSegmentStart st" "currentSegmentStart st < real (length cd)"
      "list_all (\<lambda>seg. snd seg \<le> currentSegmentStart st) (keepSegments st)"
      "segs_chain 0 (keepSegments st)" "list_all (\<lambda>seg. snd seg \<le> real (length cd)) (keepSegments st)"
      using inv by (auto simp add: scan_inv_def)
    have "segs_chain 0 (keepSegments st @ [(currentSegmentStart st, real (length cd))])"
      using f by (intro segs_chain_snoc) simp_all
    then show ?thesis using False f
      by (simp add: computeKeepSegments_def close_final_def st_def [symmetric])
  qed
qed


section \<open>Silence trimmer: kept segments and the fallback\<close>

lemma foldl_total:
  "foldl (\<lambda>acc seg. acc + (snd seg - fst seg)) a segs
     = a + sum_list (map (\<lambda>seg. snd seg - fst seg) segs)"
  for a :: real
  by (induction segs arbitrary: a) simp_all

lemma segs_chain_total:
  "segs_chain lo segs \<Longrightarrow> list_all (\<lambda>seg. snd seg \<le> L) segs \<Longrightarrow> lo \<le> L
     \<Longrightarrow> 0 \<le> sum_list (map (\<lambda>seg. snd seg - fst seg) segs)
         \<and> sum_list (map (\<lambda>seg. snd seg - fst seg) segs) \<le> L - lo"
proof (induction segs arbitrary: lo)
  case Nil
  then show ?case by simp
next
  case (Cons seg segs)
  then have "0 \<le> sum_list (map (\<lambda>seg. snd seg - fst seg) segs)
         \<and> sum_list (map (\<lambda>seg. snd seg - fst seg) segs) \<le> L - snd seg"
    by (intro Cons.IH) simp_all
  then show ?case using Cons.prems by simp
qed

lemma segs_chain_member:
  "segs_chain lo segs \<Longrightarrow> seg \<in> set segs \<Longrightarrow> lo \<le> fst seg \<and> fst seg < snd seg"
proof (induction segs arbitrary: lo)
  case Nil
  then show ?case by simp
next
  case (Cons a segs)
  show ?case
  proof (cases "seg = a")
    case True
    then show ?thesis using Cons.prems by simp
  next
    case False
    then have "snd a \<le> fst seg \<and> fst seg < snd seg"
      using Cons.IH [of "snd a"] Cons.prems by simp
    then show ?thesis using Cons.prems by simp
  qed
qed

lemma segs_chain_adjacent:
  "segs_chain lo segs \<Longrightarrow> Suc k < length segs \<Longrightarrow> snd (segs ! k) \<le> fst (segs ! Suc k)"
proof (induction segs arbitrary: lo k)
  case Nil
  then show ?case by simp
next
  case (Cons a segs)
  show ?case
  proof (cases k)
    case 0
    then show ?thesis using Cons.prems by (cases segs) simp_all
  next
    case (Suc k')
    then show ?thesis using Cons.IH [of "snd a" k'] Cons.prems by simp
  qed
qed

lemma seg_reads_range: "j \<in> set (seg_reads s e) \<Longrightarrow> s \<le> j \<and> j < e"
proof (induction s e rule: seg_reads.induct)
  case (1 s e)
  show ?case
  proof (cases "s < e")
    case True
    then have "j = s \<or> j \<in> set (seg_reads (s + 1) e)"
      using "1.prems" by (subst (asm) seg_reads.simps) simp
    then show ?thesis using "1.IH" True by auto
  next
    case False
    then show ?thesis using "1.prems" by (subst (asm) seg_reads.simps) simp
  qed
qed

lemma seg_reads_Ints: "j \<in> set (seg_reads s e) \<Longrightarrow> s \<in> \<int> \<Longrightarrow> j \<in> \<int>"
proof (induction s e rule: seg_reads.induct)
  case (1 s e)
  show ?case
  proof (cases "s < e")
    case True
    then have "j = s \<or> j \<in> set (seg_reads (s + 1) e)"
      using "1.prems" by (subst (asm) seg_reads.simps) simp
    then show ?thesis using "1.IH" True "1.prems"(2) by auto
  next
    case False
    then show ?thesis using "1.prems" by (subst (asm) seg_reads.simps) simp
  qed
qed

lemma length_store_fold:
  "length (fst (fold (store_sample cd) js acc)) = length (fst acc)"
  by (induction js arbitrary: acc) (simp_all add: store_sample_def split: prod.splits)

lemma length_fill_pcm: "length (fill_pcm cd segs pcm) = length pcm"
proof -
  have "length (fst (fold (fill_segment cd) segs acc)) = length (fst acc)" for acc
    by (induction segs arbitrary: acc) (simp_all add: fill_segment_def length_store_fold)
  then show ?thesis by (simp add: fill_pcm_def)
qed


lemma scan_step_integral:
  assumes "starts_integral st" and "paddingSamples sr \<in> \<int>"
  shows "starts_integral (scan_step sr len i x st)"
proof -
  have "max 0 (real i - paddingSamples sr) \<in> \<int>"
    using assms(2) by (simp add: max_def)
  then show ?thesis
    using assms(1) by (simp add: starts_integral_def scan_step_def)
qed

lemma scan_loop_integral:
  "starts_integral st \<Longrightarrow> paddingSamples sr \<in> \<int> \<Longrightarrow> starts_integral (scan_loop sr len i xs st)"
  by (induction xs arbitrary: i st) (simp_all add: scan_step_integral)

lemma keepSegments_integral:
  assumes "paddingSamples sr \<in> \<int>"
  shows "list_all (\<lambda>seg. fst seg \<in> \<int>) (computeKeepSegments sr cd)"
proof -
  have "starts_integral initial_scan" by (simp add: starts_integral_def initial_scan_def)
  then have "starts_integral (scan_loop sr (length cd) 0 cd initial_scan)"
    using assms by (rule scan_loop_integral)
  then show ?thesis
    by (simp add: computeKeepSegments_def close_final_def starts_integral_def)
qed

lemma readChannel_Some:
  "j \<in> \<int> \<Longrightarrow> 0 \<le> j \<Longrightarrow> j < real (length cd) \<Longrightarrow> readChannel cd j = Some (cd ! nat \<lfloor>j\<rfloor>)"
  by (auto simp add: readChannel_def elim: Ints_cases)

text \<open>
  Claim C10. For a non-negative sample rate, every kept segment satisfies
  \<open>0 \<le> start < end \<le> length channelData\<close>; each segment starts at or after the end
  of the one before it (increasing order, no overlap); every index visited by the copy
  loop lies in \<open>[0, length channelData)\<close>, and is the index of a sample when the padding
  is a whole number of samples; the output sample count \<open>totalSamples\<close> lies between 0
  and the input sample count, so the allocation of the output array does not raise and
  the array is no longer than the input.
\<close>

theorem kept_segments_well_formed:
  assumes "0 \<le> sampleRate"
  shows "(\<forall>seg \<in> set (computeKeepSegments sampleRate channelData).
            0 \<le> fst seg \<and> fst seg < snd seg \<and> snd seg \<le> real (length channelData))
       \<and> (\<forall>k. Suc k < length (computeKeepSegments sampleRate channelData) \<longrightarrow>
            snd (computeKeepSegments sampleRate channelData ! k)
              \<le> fst (computeKeepSegments sampleRate channelData ! Suc k))
       \<and> (\<forall>seg \<in> set (computeKeepSegments sampleRate channelData).
            \<forall>j \<in> set (seg_reads (fst seg) (snd seg)).
              0 \<le> j \<and> j < real (length channelData)
              \<and> (paddingSamples sampleRate \<in> \<int> \<longrightarrow>
                   readChannel channelData j = Some (channelData ! nat \<lfloor>j\<rfloor>)))
       \<and> 0 \<le> totalSamples (computeKeepSegments sampleRate channelData)
       \<and> totalSamples (computeKeepSegments sampleRate channelData) \<le> real (length channelData)
       \<and> (\<exists>pcm. newInt16Array (totalSamples (computeKeepSegments sampleRate channelData)) = Inr pcm
             \<and> length (fill_pcm channelData (computeKeepSegments sampleRate channelData) pcm)
                 \<le> length channelData)"
proof -
  define segs where "segs = computeKeepSegments sampleRate channelData"
  define n where "n = length channelData"
  have chain: "segs_chain 0 segs" and upper: "list_all (\<lambda>seg. snd seg \<le> real n) segs"
    using keepSegments_chain [OF assms, of channelData] by (simp_all add: segs_def n_def)
  have wf: "0 \<le> fst seg \<and> fst seg < snd seg \<and> snd seg \<le> real n" if "seg \<in> set segs" for seg
    using segs_chain_member [OF chain that] upper that by (simp add: list_all_iff)
  have adj: "snd (segs ! k) \<le> fst (segs ! Suc k)" if "Suc k < length segs" for k
    using segs_chain_adjacent [OF chain that] .
  have rd: "0 \<le> j \<and> j < real n
            \<and> (paddingSamples sampleRate \<in> \<int> \<longrightarrow> readChannel channelData j = Some (channelData ! nat \<lfloor>j\<rfloor>))"
    if "seg \<in> set segs" and "j \<in> set (seg_reads (fst seg) (snd seg))" for seg j
  proof -
    have r: "fst seg \<le> j \<and> j < snd seg" using seg_reads_range [OF that(2)] .
    then have b: "0 \<le> j" "j < real n" using wf [OF that(1)] by simp_all
    have "readChannel channelData j = Some (channelData ! nat \<lfloor>j\<rfloor>)"
      if p: "paddingSamples sampleRate \<in> \<int>"
    proof -
      have "fst seg \<in> \<int>"
        using keepSegments_integral [OF p, of channelData] \<open>seg \<in> set segs\<close>
        by (simp add: list_all_iff segs_def)
      then have "j \<in> \<int>" using seg_reads_Ints \<open>j \<in> set (seg_reads (fst seg) (snd seg))\<close> by blast
      then show ?thesis using b by (intro readChannel_Some) (simp_all add: n_def)
    qed
    then show ?thesis using b by simp
  qed
  have tot: "0 \<le> totalSamples segs \<and> totalSamples segs \<le> real n"
    using segs_chain_total [OF chain upper] by (simp add: totalSamples_def foldl_total)
  then have "js_trunc (totalSamples segs) = \<lfloor>totalSamples segs\<rfloor>" by (simp add: js_trunc_def)
  moreover have "0 \<le> \<lfloor>totalSamples segs\<rfloor>" using tot by simp
  moreover have "nat \<lfloor>totalSamples segs\<rfloor> \<le> n" using tot by linarith
  ultimately have alloc: "\<exists>pcm. newInt16Array (totalSamples segs) = Inr pcm
      \<and> length (fill_pcm channelData segs pcm) \<le> n"
    by (simp add: newInt16Array_def length_fill_pcm)
  show ?thesis
    using wf adj rd tot alloc unfolding segs_def n_def by blast
qed


lemma example_segments:
  "computeKeepSegments 10
     [0, 0.01, 0, 0.5, - 0.3, 0.2, 0.9, - 1, 0.4, 0.1, 0.2, 0.3, 0.6,
      0, 0.01, - 0.01, 0, 0.015, 0.7, - 0.2] = [(2, 14), (17, 20)]"
  by (simp add: computeKeepSegments_def close_final_def scan_step_def initial_scan_def
      threshold_def minSilenceSamples_def paddingSamples_def)

text \<open>
  The theorem at 10 Hz (4 samples of minimum silence, 1 of padding) on twenty samples
  with a five-sample gap: two segments, fifteen output samples.
\<close>

theorem kept_segments_well_formed_witness:
  "(0::real) \<le> 10
   \<and> computeKeepSegments 10
        [0, 0.01, 0, 0.5, - 0.3, 0.2, 0.9, - 1, 0.4, 0.1, 0.2, 0.3, 0.6,
         0, 0.01, - 0.01, 0, 0.015, 0.7, - 0.2] = [(2, 14), (17, 20)]
   \<and> list_all (\<lambda>seg. 0 \<le> fst seg \<and> fst seg < snd seg \<and> snd seg \<le> 20) [(2, 14), (17, 20 :: real)]
   \<and> list_all (\<lambda>j. 0 \<le> j \<and> j < 20) (seg_reads 17 20)
   \<and> totalSamples [(2, 14), (17, 20)] \<le> 20"
proof -
  have h: "(0::real) \<le> 10" by simp
  note t = kept_segments_well_formed [OF h,
      of "[0, 0.01, 0, 0.5, - 0.3, 0.2, 0.9, - 1, 0.4, 0.1, 0.2, 0.3, 0.6,
           0, 0.01, - 0.01, 0, 0.015, 0.7, - 0.2]", unfolded example_segments]
  have a: "list_all (\<lambda>seg. 0 \<le> fst seg \<and> fst seg < snd seg \<and> snd seg \<le> 20) [(2, 14), (17, 20 :: real)]"
    using t by simp
  have b: "list_all (\<lambda>j. 0 \<le> j \<and> j < 20) (seg_reads 17 20)"
    using t by (auto simp add: list_all_iff)
  have c: "totalSamples [(2, 14), (17, 20)] \<le> 20"
    using t by simp
  show ?thesis by (intro conjI h example_segments a b c)
qed

text \<open>
  Claim C1. When the decoder succeeds and the scan keeps no segment, and in particular
  when every sample is at or below the threshold, \<open>trimSilenceFromAudio\<close> returns the
  blob it was given.
\<close>

theorem trim_without_segments_returns_original:
  assumes "decodeAudioData (blob_bytes b) = Some (channelData, sampleRate)"
  shows "(computeKeepSegments sampleRate channelData = [] \<longrightarrow>
            trimSilenceFromAudio decodeAudioData b = Inr b)
       \<and> ((\<forall>x \<in> set channelData. \<bar>x\<bar> \<le> threshold) \<longrightarrow>
            trimSilenceFromAudio decodeAudioData b = Inr b)"
  using assms by (simp add: trimSilenceFromAudio_def all_silent_no_segments)

text \<open>The theorem on an all-quiet clip of five samples.\<close>

theorem trim_without_segments_returns_original_witness:
  "list_all (\<lambda>x. \<bar>x\<bar> \<le> threshold) [0, 0.01, - 0.015, 0.002, 0 :: real]
   \<and> trimSilenceFromAudio (\<lambda>bytes. Some ([0, 0.01, - 0.015, 0.002, 0], 24000))
        \<lparr>blob_bytes = [73, 68, 51], blob_type = ''audio/mpeg''\<rparr>
      = Inr \<lparr>blob_bytes = [73, 68, 51], blob_type = ''audio/mpeg''\<rparr>"
  using trim_without_segments_returns_original
    [of "\<lambda>bytes. Some ([0, 0.01, - 0.015, 0.002, 0], 24000)"
        "\<lparr>blob_bytes = [73, 68, 51], blob_type = ''audio/mpeg''\<rparr>"
        "[0, 0.01, - 0.015, 0.002, 0]" 24000]
  by (simp add: threshold_def)


section \<open>Silence trimmer: where the scan cuts\<close>

lemma scan_loop_append:
  "scan_loop sr len i (xs @ ys) st = scan_loop sr len (i + length xs) ys (scan_loop sr len i xs st)"
  by (induction xs arbitrary: i st) simp_all

lemma scan_loud_block:
  "\<forall>x\<in>set xs. \<bar>x\<bar> > threshold \<Longrightarrow> xs \<noteq> [] \<Longrightarrow>
   scan_loop sr len i xs st =
     st\<lparr>currentSegmentStart :=
          (if currentSegmentStart st = - 1 then max 0 (real i - paddingSamples sr)
           else currentSegmentStart st),
        isSilent := False,
        silenceStart := i + length xs - 1\<rparr>"
proof (induction xs arbitrary: i st)
  case Nil
  then show ?case by simp
next
  case (Cons x xs)
  have m: "max 0 (real i - paddingSamples sr) \<noteq> - 1" by simp
  show ?case
  proof (cases "xs = []")
    case True
    then show ?thesis using Cons.prems by (simp add: scan_step_def)
  next
    case False
    then show ?thesis
      using Cons.prems Cons.IH [of "Suc i" "scan_step sr len i x st"] m
      by (simp add: scan_step_def)
  qed
qed

lemma scan_gap_block:
  assumes "\<forall>x\<in>set xs. \<bar>x\<bar> \<le> threshold" and "\<not> isSilent st"
    and "silenceStart st < i" and "real i - 1 - real (silenceStart st) \<le> minSilenceSamples sr"
    and "0 \<le> sr"
  shows "scan_loop sr len i xs st =
     (if real (i + length xs) - 1 - real (silenceStart st) > minSilenceSamples sr
      then st\<lparr>keepSegments := keepSegments st @
                 [(currentSegmentStart st,
                   min (real len)
                     (real (silenceStart st + nat \<lfloor>minSilenceSamples sr\<rfloor> + 1)
                        - minSilenceSamples sr + paddingSamples sr))],
              currentSegmentStart := - 1,
              isSilent := True\<rparr>
      else st)"
  using assms
proof (induction xs arbitrary: i)
  case Nil
  then show ?case by simp
next
  case (Cons x xs)
  have m0: "0 \<le> minSilenceSamples sr" using Cons.prems by (simp add: minSilenceSamples_def)
  show ?case
  proof (cases "real i - real (silenceStart st) > minSilenceSamples sr")
    case True
    have "\<lfloor>minSilenceSamples sr\<rfloor> = int i - 1 - int (silenceStart st)"
      using True Cons.prems(4) by linarith
    then have d: "silenceStart st + nat \<lfloor>minSilenceSamples sr\<rfloor> + 1 = i"
      using Cons.prems(3) by simp
    define st' where "st' = scan_step sr len i x st"
    have s: "isSilent st'" using True Cons.prems by (simp add: st'_def scan_step_def)
    have "scan_loop sr len (Suc i) xs st' = st'"
      using Cons.prems(1) s by (intro scan_silent_block) simp_all
    moreover have "real (i + length (x # xs)) - 1 - real (silenceStart st) > minSilenceSamples sr"
      using True by simp
    ultimately show ?thesis
      using True Cons.prems(1,2) unfolding d
      by (simp add: st'_def [symmetric]) (simp add: st'_def scan_step_def)
  next
    case False
    then have st: "scan_step sr len i x st = st" using Cons.prems by (simp add: scan_step_def)
    have "scan_loop sr len (Suc i) xs st =
     (if real (Suc i + length xs) - 1 - real (silenceStart st) > minSilenceSamples sr
      then st\<lparr>keepSegments := keepSegments st @
                 [(currentSegmentStart st,
                   min (real len)
                     (real (silenceStart st + nat \<lfloor>minSilenceSamples sr\<rfloor> + 1)
                        - minSilenceSamples sr + paddingSamples sr))],
              currentSegmentStart := - 1,
              isSilent := True\<rparr>
      else st)"
      using Cons.prems False by (intro Cons.IH) simp_all
    then show ?thesis by (simp add: st)
  qed
qed


text \<open>
  The whole result on a signal made of a quiet lead-in \<open>Q\<close>, a loud run \<open>A\<close>, a
  quiet gap \<open>G\<close> and a further loud run \<open>B\<close> (possibly empty).
\<close>

lemma scan_blocks:
  assumes sr: "0 \<le> sampleRate"
    and Q: "\<forall>x\<in>set Q. \<bar>x\<bar> \<le> threshold"
    and A: "\<forall>x\<in>set A. \<bar>x\<bar> > threshold" "A \<noteq> []"
    and G: "\<forall>x\<in>set G. \<bar>x\<bar> \<le> threshold"
    and B: "\<forall>x\<in>set B. \<bar>x\<bar> > threshold"
  shows "computeKeepSegments sampleRate (Q @ A @ G @ B) =
     (let len = real (length (Q @ A @ G @ B));
          m = minSilenceSamples sampleRate;
          p = paddingSamples sampleRate;
          silenceRunStart = length Q + length A;
          detect = silenceRunStart + nat \<lfloor>m\<rfloor>
      in if real (length G) > m
         then (max 0 (real (length Q) - p), min len (real detect - m + p))
              # (if B = [] then []
                 else [(max 0 (real (silenceRunStart + length G) - p), len)])
         else [(max 0 (real (length Q) - p), len)])"
proof -
  define len where "len = length (Q @ A @ G @ B)"
  define m where "m = minSilenceSamples sampleRate"
  define p where "p = paddingSamples sampleRate"
  define s1 where "s1 = max 0 (real (length Q) - p)"
  define st1 where "st1 = initial_scan\<lparr>currentSegmentStart := s1, isSilent := False,
      silenceStart := length Q + length A - 1\<rparr>"
  have s1: "s1 \<noteq> - 1" by (simp add: s1_def)
  have la: "0 < length A" using A by simp
  have q: "scan_loop sampleRate len 0 Q initial_scan = initial_scan"
    using Q by (intro scan_silent_block) (simp_all add: initial_scan_def)
  have a: "scan_loop sampleRate len (length Q) A initial_scan = st1"
    using scan_loud_block [OF A, of sampleRate len "length Q" initial_scan]
    by (simp add: st1_def s1_def p_def initial_scan_def)
  have st1: "\<not> isSilent st1" "silenceStart st1 = length Q + length A - 1"
    "currentSegmentStart st1 = s1" "keepSegments st1 = []"
    by (simp_all add: st1_def initial_scan_def)
  have m0: "0 \<le> m" using sr by (simp add: m_def minSilenceSamples_def)
  have g: "scan_loop sampleRate len (length Q + length A) G st1 =
     (if real (length G) > m
      then st1\<lparr>keepSegments := [(s1, min (real len) (real (length Q + length A + nat \<lfloor>m\<rfloor>) - m + p))],
               currentSegmentStart := - 1, isSilent := True\<rparr>
      else st1)"
  proof -
    have "Suc (silenceStart st1) = length Q + length A" using la by (simp add: st1)
    then have "real (Suc (silenceStart st1)) = real (length Q + length A)" by simp
    then have eq: "real (silenceStart st1) = real (length Q) + real (length A) - 1" by simp
    have "real (length Q + length A) - 1 - real (silenceStart st1) \<le> minSilenceSamples sampleRate"
      using m0 by (simp add: eq m_def)
    moreover have "silenceStart st1 < length Q + length A" using la by (simp add: st1)
    moreover have "real (length Q + length A + length G) - 1 - real (silenceStart st1) = real (length G)"
      by (simp add: eq)
    moreover have "silenceStart st1 + nat \<lfloor>m\<rfloor> + 1 = length Q + length A + nat \<lfloor>m\<rfloor>"
      using la by (simp add: st1)
    ultimately show ?thesis
      using scan_gap_block [OF G st1(1) _ _ sr, of "length Q + length A" len]
      by (simp add: st1(3,4) m_def p_def)
  qed
  have all: "scan_loop sampleRate len 0 (Q @ A @ G @ B) initial_scan =
      scan_loop sampleRate len (length Q + length A + length G) B
        (scan_loop sampleRate len (length Q + length A) G st1)"
    by (simp add: scan_loop_append q a)
  have ck: "computeKeepSegments sampleRate (Q @ A @ G @ B) =
      close_final len (scan_loop sampleRate len (length Q + length A + length G) B
        (scan_loop sampleRate len (length Q + length A) G st1))"
    unfolding computeKeepSegments_def len_def [symmetric] all ..
  show ?thesis
  proof (cases "real (length G) > m")
    case cut: True
    define st2 where "st2 = st1\<lparr>keepSegments :=
        [(s1, min (real len) (real (length Q + length A + nat \<lfloor>m\<rfloor>) - m + p))],
        currentSegmentStart := - 1, isSilent := True\<rparr>"
    have g2: "scan_loop sampleRate len (length Q + length A) G st1 = st2"
      using cut by (simp add: g st2_def)
    show ?thesis
    proof (cases "B = []")
      case True
      have "close_final len (scan_loop sampleRate len (length Q + length A + length G) B st2)
          = [(s1, min (real len) (real (length Q + length A + nat \<lfloor>m\<rfloor>) - m + p))]"
        using True by (simp add: close_final_def st2_def)
      then show ?thesis
        unfolding ck g2 using cut True by (simp add: Let_def m_def p_def s1_def len_def)
    next
      case False
      have "scan_loop sampleRate len (length Q + length A + length G) B st2 =
          st2\<lparr>currentSegmentStart := max 0 (real (length Q + length A + length G) - p),
              isSilent := False,
              silenceStart := length Q + length A + length G + length B - 1\<rparr>"
        using scan_loud_block [OF B False, of sampleRate len "length Q + length A + length G" st2]
        by (simp add: st2_def p_def)
      then have "close_final len (scan_loop sampleRate len (length Q + length A + length G) B st2)
          = [(s1, min (real len) (real (length Q + length A + nat \<lfloor>m\<rfloor>) - m + p)),
             (max 0 (real (length Q + length A + length G) - p), real len)]"
        by (simp add: close_final_def st2_def)
      then show ?thesis
        unfolding ck g2 using cut False by (simp add: Let_def m_def p_def s1_def len_def)
    qed
  next
    case nocut: False
    have g2: "scan_loop sampleRate len (length Q + length A) G st1 = st1"
      using nocut by (simp add: g)
    show ?thesis
    proof (cases "B = []")
      case True
      have "close_final len (scan_loop sampleRate len (length Q + length A + length G) B st1)
          = [(s1, real len)]"
        using True s1 by (simp add: close_final_def st1)
      then show ?thesis
        unfolding ck g2 using nocut True by (simp add: Let_def m_def p_def s1_def len_def)
    next
      case False
      have "scan_loop sampleRate len (length Q + length A + length G) B st1 =
          st1\<lparr>isSilent := False,
              silenceStart := length Q + length A + length G + length B - 1\<rparr>"
        using scan_loud_block [OF B False, of sampleRate len "length Q + length A + length G" st1] s1
        by (simp add: st1)
      then have "close_final len (scan_loop sampleRate len (length Q + length A + length G) B st1)
          = [(s1, real len)]"
        using s1 by (simp add: close_final_def st1)
      then show ?thesis
        unfolding ck g2 using nocut False by (simp add: Let_def m_def p_def s1_def len_def)
    qed
  qed
qed

lemma scan_after_loud:
  assumes "\<bar>x\<bar> > threshold"
  shows "currentSegmentStart (scan_loop sr len 0 (P @ [x]) initial_scan) \<noteq> - 1
       \<and> \<not> isSilent (scan_loop sr len 0 (P @ [x]) initial_scan)
       \<and> silenceStart (scan_loop sr len 0 (P @ [x]) initial_scan) = length P"
proof -
  have m: "max 0 (real (length P) - paddingSamples sr) \<noteq> - 1" by simp
  show ?thesis
    using assms m by (simp add: scan_loop_append scan_step_def)
qed

text \<open>
  Claim C4 (as amended). Let the scan have read a prefix \<open>P\<close> and a loud sample
  \<open>x\<close> at index \<open>length P\<close>, so that a segment is open, and let a run \<open>G\<close> of
  quiet samples follow, starting at \<open>silenceRunStart = length P + 1\<close>. When \<open>G\<close> is
  longer than \<open>minSilenceSamples\<close>, the open segment is closed at
  \<open>detect - minSilenceSamples + paddingSamples\<close>, clamped to the signal length, where
  \<open>detect = silenceRunStart + floor minSilenceSamples\<close> is the first quiet index
  more than \<open>minSilenceSamples\<close> after the last loud sample; a loud sample \<open>y\<close>
  after the gap then opens the next segment at its own index minus the padding, not
  below 0. When \<open>G\<close> is not longer than \<open>minSilenceSamples\<close> nothing is cut: the
  state is unchanged by the gap and the same segment is still open after \<open>y\<close>. A
  segment open at the end of the signal is closed at the signal length.
\<close>

theorem scan_cut_positions:
  assumes "0 \<le> sampleRate"
    and "\<bar>x\<bar> > threshold"
    and "\<forall>g\<in>set G. \<bar>g\<bar> \<le> threshold"
    and "\<bar>y\<bar> > threshold"
    and "st = scan_loop sampleRate len 0 (P @ [x]) initial_scan"
    and "m = minSilenceSamples sampleRate" and "p = paddingSamples sampleRate"
    and "silenceRunStart = length P + 1"
    and "detect = silenceRunStart + nat \<lfloor>m\<rfloor>"
  shows "currentSegmentStart st \<noteq> - 1
       \<and> (real (length G) > m \<longrightarrow>
            scan_loop sampleRate len 0 (P @ [x] @ G) initial_scan =
              st\<lparr>keepSegments := keepSegments st @
                     [(currentSegmentStart st, min (real len) (real detect - m + p))],
                 currentSegmentStart := - 1, isSilent := True\<rparr>
            \<and> currentSegmentStart (scan_loop sampleRate len 0 (P @ [x] @ G @ [y]) initial_scan)
                = max 0 (real (silenceRunStart + length G) - p))
       \<and> (real (length G) \<le> m \<longrightarrow>
            scan_loop sampleRate len 0 (P @ [x] @ G) initial_scan = st
            \<and> keepSegments (scan_loop sampleRate len 0 (P @ [x] @ G @ [y]) initial_scan)
                = keepSegments st
            \<and> currentSegmentStart (scan_loop sampleRate len 0 (P @ [x] @ G @ [y]) initial_scan)
                = currentSegmentStart st)
       \<and> close_final len st = keepSegments st @ [(currentSegmentStart st, real len)]"
proof -
  have open_seg: "currentSegmentStart st \<noteq> - 1" "\<not> isSilent st" "silenceStart st = length P"
    using scan_after_loud [OF assms(2), of sampleRate len P] assms(5) by simp_all
  have m0: "0 \<le> m" using assms(1,6) by (simp add: minSilenceSamples_def)
  have g: "scan_loop sampleRate len (length P + 1) G st =
     (if real (length G) > m
      then st\<lparr>keepSegments := keepSegments st @
                 [(currentSegmentStart st, min (real len) (real detect - m + p))],
              currentSegmentStart := - 1, isSilent := True\<rparr>
      else st)"
    using scan_gap_block [OF assms(3) open_seg(2) _ _ assms(1), of "length P + 1" len] m0
    by (simp add: open_seg(3) assms(6,7,8,9))
  have app: "scan_loop sampleRate len 0 (P @ [x] @ G) initial_scan =
      scan_loop sampleRate len (length P + 1) G st"
    using scan_loop_append [of sampleRate len 0 "P @ [x]" G initial_scan]
    by (simp add: assms(5))
  have app2: "scan_loop sampleRate len 0 (P @ [x] @ G @ [y]) initial_scan =
      scan_step sampleRate len (length P + 1 + length G) y
        (scan_loop sampleRate len (length P + 1) G st)"
    using scan_loop_append [of sampleRate len 0 "P @ [x] @ G" "[y]" initial_scan] app
    by simp
  have cut: "real (length G) > m \<longrightarrow>
            scan_loop sampleRate len 0 (P @ [x] @ G) initial_scan =
              st\<lparr>keepSegments := keepSegments st @
                     [(currentSegmentStart st, min (real len) (real detect - m + p))],
                 currentSegmentStart := - 1, isSilent := True\<rparr>
            \<and> currentSegmentStart (scan_loop sampleRate len 0 (P @ [x] @ G @ [y]) initial_scan)
                = max 0 (real (silenceRunStart + length G) - p)"
    using assms(4) unfolding app app2 g by (simp add: scan_step_def assms(7,8))
  have nocut: "real (length G) \<le> m \<longrightarrow>
            scan_loop sampleRate len 0 (P @ [x] @ G) initial_scan = st
            \<and> keepSegments (scan_loop sampleRate len 0 (P @ [x] @ G @ [y]) initial_scan)
                = keepSegments st
            \<and> currentSegmentStart (scan_loop sampleRate len 0 (P @ [x] @ G @ [y]) initial_scan)
                = currentSegmentStart st"
    using assms(4) open_seg(1) unfolding app app2 g by (simp add: scan_step_def)
  have fin: "close_final len st = keepSegments st @ [(currentSegmentStart st, real len)]"
    using open_seg(1) by (simp add: close_final_def)
  show ?thesis using open_seg(1) cut nocut fin by blast
qed


text \<open>
  The theorem at 10 Hz (4 samples of minimum silence, 1 of padding) on a signal of 20
  samples: the last loud sample is at index 12, the gap of five starts at 13, the cut is
  detected at 17, the segment \<open>(2, 14)\<close> is closed and the next one opens at 17.
\<close>

theorem scan_cut_positions_witness:
  "(0::real) \<le> 10
   \<and> \<bar>0.6::real\<bar> > threshold
   \<and> list_all (\<lambda>g. \<bar>g\<bar> \<le> threshold) [0, 0.01, - 0.01, 0, 0.015 :: real]
   \<and> \<bar>0.7::real\<bar> > threshold
   \<and> scan_loop 10 20 0 ([0, 0.01, 0, 0.5, - 0.3, 0.2, 0.9, - 1, 0.4, 0.1, 0.2, 0.3] @ [0.6])
         initial_scan
       = \<lparr>isSilent = False, silenceStart = 12, keepSegments = [], currentSegmentStart = 2\<rparr>
   \<and> minSilenceSamples 10 < real (length [0, 0.01, - 0.01, 0, 0.015 :: real])
   \<and> scan_loop 10 20 0
         ([0, 0.01, 0, 0.5, - 0.3, 0.2, 0.9, - 1, 0.4, 0.1, 0.2, 0.3] @ [0.6]
            @ [0, 0.01, - 0.01, 0, 0.015]) initial_scan
       = \<lparr>isSilent = True, silenceStart = 12, keepSegments = [(2, 14)],
          currentSegmentStart = - 1\<rparr>
   \<and> currentSegmentStart (scan_loop 10 20 0
         ([0, 0.01, 0, 0.5, - 0.3, 0.2, 0.9, - 1, 0.4, 0.1, 0.2, 0.3] @ [0.6]
            @ [0, 0.01, - 0.01, 0, 0.015] @ [0.7]) initial_scan) = 17"
proof -
  define P :: "real list" where "P = [0, 0.01, 0, 0.5, - 0.3, 0.2, 0.9, - 1, 0.4, 0.1, 0.2, 0.3]"
  define G :: "real list" where "G = [0, 0.01, - 0.01, 0, 0.015]"
  define st where
    "st = \<lparr>isSilent = False, silenceStart = 12, keepSegments = [], currentSegmentStart = 2\<rparr>"
  have h1: "(0::real) \<le> 10" by simp
  have h2: "\<bar>0.6::real\<bar> > threshold" by (simp add: threshold_def)
  have h3: "\<forall>g\<in>set G. \<bar>g\<bar> \<le> threshold" by (simp add: G_def threshold_def)
  have h3': "list_all (\<lambda>g. \<bar>g\<bar> \<le> threshold) G" using h3 by (simp add: list_all_iff)
  have h4: "\<bar>0.7::real\<bar> > threshold" by (simp add: threshold_def)
  have h5: "scan_loop 10 20 0 (P @ [0.6]) initial_scan = st"
    by (simp add: P_def st_def scan_step_def initial_scan_def threshold_def paddingSamples_def
        minSilenceSamples_def)
  have hm: "minSilenceSamples 10 < real (length G)"
    by (simp add: G_def minSilenceSamples_def)
  note t = scan_cut_positions [OF h1 h2 h3 h4 h5 [symmetric] refl refl refl refl]
  from t hm
  have a: "scan_loop 10 20 0 (P @ [0.6] @ G) initial_scan =
      st\<lparr>keepSegments := keepSegments st @
             [(currentSegmentStart st,
               min (real 20) (real (length P + 1 + nat \<lfloor>minSilenceSamples 10\<rfloor>)
                 - minSilenceSamples 10 + paddingSamples 10))],
         currentSegmentStart := - 1, isSilent := True\<rparr>"
    and b: "currentSegmentStart (scan_loop 10 20 0 (P @ [0.6] @ G @ [0.7]) initial_scan)
      = max 0 (real (length P + 1 + length G) - paddingSamples 10)"
    by blast+
  have a': "scan_loop 10 20 0 (P @ [0.6] @ G) initial_scan =
      \<lparr>isSilent = True, silenceStart = 12, keepSegments = [(2, 14)], currentSegmentStart = - 1\<rparr>"
    unfolding a by (simp add: st_def P_def minSilenceSamples_def paddingSamples_def)
  have b': "currentSegmentStart (scan_loop 10 20 0 (P @ [0.6] @ G @ [0.7]) initial_scan) = 17"
    unfolding b by (simp add: P_def G_def paddingSamples_def)
  show ?thesis
    using h1 h2 h3' h4 h5 hm a' b' unfolding P_def G_def st_def by (intro conjI)
qed

lemma long_gap_at_24000:
  "computeKeepSegments 24000 ([] @ [0.5] @ replicate 9601 0 @ []) = [(0, 2401)]"
proof -
  have "(0::real) \<le> 24000" by simp
  moreover have "\<forall>x\<in>set (replicate 9601 (0::real)). \<bar>x\<bar> \<le> threshold"
    by (simp add: threshold_def)
  moreover have "\<forall>x\<in>set [0.5::real]. \<bar>x\<bar> > threshold" by (simp add: threshold_def)
  ultimately have "computeKeepSegments 24000 ([] @ [0.5] @ replicate 9601 0 @ []) =
     (let len = real (length ([] @ [0.5::real] @ replicate 9601 (0::real) @ []));
          m = minSilenceSamples 24000;
          p = paddingSamples 24000;
          silenceRunStart = length ([]::real list) + length [0.5::real];
          detect = silenceRunStart + nat \<lfloor>m\<rfloor>
      in if real (length (replicate 9601 (0::real))) > m
         then (max 0 (real (length ([]::real list)) - p), min len (real detect - m + p))
              # (if ([]::real list) = [] then []
                 else [(max 0 (real (silenceRunStart + length (replicate 9601 (0::real))) - p), len)])
         else [(max 0 (real (length ([]::real list)) - p), len)])"
    by (intro scan_blocks) simp_all
  also have "\<dots> = [(0, 2401)]"
    by (simp add: minSilenceSamples_def paddingSamples_def Let_def)
  finally show ?thesis .
qed

text \<open>
  The claim as worded fails. At 10 Hz, ten loud samples followed by ten quiet ones give
  the segment \<open>(0, 11)\<close>: the silence run starts at index 10 (the last loud sample is
  9), and the worded end is 7 (or 6 from the last loud sample). At 24000 Hz, one loud
  sample followed by 9601 quiet ones gives \<open>(0, 2401)\<close>, while the worded end is
  negative.
\<close>

theorem segment_end_counterexample:
  "computeKeepSegments 10
     [0.5, 0.5, 0.5, 0.5, 0.5, 0.5, 0.5, 0.5, 0.5, 0.5, 0, 0, 0, 0, 0, 0, 0, 0, 0, 0] = [(0, 11)]
   \<and> spec_segment_end 20 10 10 = 7
   \<and> spec_segment_end 20 9 10 = 6
   \<and> computeKeepSegments 24000 (0.5 # replicate 9601 0) = [(0, 2401)]
   \<and> spec_segment_end 9602 1 24000 = - 7199"
proof -
  have a: "computeKeepSegments 10
     [0.5, 0.5, 0.5, 0.5, 0.5, 0.5, 0.5, 0.5, 0.5, 0.5, 0, 0, 0, 0, 0, 0, 0, 0, 0, 0] = [(0, 11)]"
    by (simp add: computeKeepSegments_def close_final_def scan_step_def initial_scan_def
        threshold_def minSilenceSamples_def paddingSamples_def)
  have b: "spec_segment_end 20 10 10 = 7" "spec_segment_end 20 9 10 = 6"
    "spec_segment_end 9602 1 24000 = - 7199"
    by (simp_all add: spec_segment_end_def minSilenceSamples_def paddingSamples_def)
  have c: "computeKeepSegments 24000 (0.5 # replicate 9601 0) = [(0, 2401)]"
    using long_gap_at_24000 by simp
  show ?thesis by (intro conjI a b c)
qed


section \<open>Embers: the population cap\<close>

lemma sweep_length: "length (snd (sweep_particles i ps)) \<le> length ps"
proof (induction i arbitrary: ps)
  case 0
  then show ?case by simp
next
  case (Suc i)
  define p where "p = move_particle (ps ! i)"
  define ps' where "ps' = (if p_life p \<le> 0 \<or> p_y p < - 20 then take i ps @ drop (Suc i) ps
                 else ps[i := p])"
  have "length ps' \<le> length ps" by (auto simp add: ps'_def)
  moreover have "length (snd (sweep_particles i ps')) \<le> length ps'" by (rule Suc.IH)
  moreover have "snd (sweep_particles (Suc i) ps) = snd (sweep_particles i ps')"
    unfolding ps'_def p_def by (simp add: Let_def case_prod_beta)
  ultimately show ?case by simp
qed

lemma updateParticles_cap:
  "length ps \<le> 50 \<Longrightarrow> length (snd (updateParticles pr det r ps)) \<le> 50"
proof -
  assume a: "length ps \<le> 50"
  define ps1 where "ps1 = maybe_spawn pr det r ps"
  have "length ps1 \<le> 50" using a by (simp add: ps1_def maybe_spawn_def)
  moreover have "length (snd (sweep_particles (length ps1) ps1)) \<le> length ps1"
    by (rule sweep_length)
  moreover have "snd (updateParticles pr det r ps) =
      (if \<not> enableEmbers pr then [] else snd (sweep_particles (length ps1) ps1))"
    unfolding updateParticles_def ps1_def Let_def by (simp add: case_prod_beta)
  ultimately show ?thesis by simp
qed

lemma ember_run_cap:
  "length ps \<le> 50 \<Longrightarrow> list_all (\<lambda>q. length q \<le> 50) (ember_run ticks ps)"
proof (induction ticks arbitrary: ps)
  case Nil
  then show ?case by simp
next
  case (Cons tick ticks)
  have "length (snd (updateParticles (fst tick) (fst (snd tick)) (snd (snd tick)) ps)) \<le> 50"
    using Cons.prems by (rule updateParticles_cap)
  then show ?case using Cons.IH by (simp add: Let_def)
qed


lemma sweep_alive:
  "\<forall>k. i \<le> k \<and> k < length ps \<longrightarrow> alive (ps ! k) \<Longrightarrow> i \<le> length ps
     \<Longrightarrow> list_all alive (snd (sweep_particles i ps))"
proof (induction i arbitrary: ps)
  case 0
  then show ?case by (simp add: list_all_length)
next
  case (Suc i)
  define p where "p = move_particle (ps ! i)"
  define ps' where "ps' = (if p_life p \<le> 0 \<or> p_y p < - 20 then take i ps @ drop (Suc i) ps
                 else ps[i := p])"
  have eq: "snd (sweep_particles (Suc i) ps) = snd (sweep_particles i ps')"
    unfolding ps'_def p_def by (simp add: Let_def case_prod_beta)
  have len: "i \<le> length ps'" using Suc.prems(2) by (auto simp add: ps'_def)
  have "alive (ps' ! k)" if k: "i \<le> k" "k < length ps'" for k
  proof (cases "p_life p \<le> 0 \<or> p_y p < - 20")
    case True
    then have ps': "ps' = take i ps @ drop (Suc i) ps" by (simp add: ps'_def)
    have "ps' ! k = ps ! (Suc k)"
      using k Suc.prems(2) by (simp add: ps' nth_append min_def)
    moreover have "Suc k < length ps" using k Suc.prems(2) by (simp add: ps' min_def)
    ultimately show ?thesis using Suc.prems(1) k by simp
  next
    case False
    then have ps': "ps' = ps[i := p]" by (simp add: ps'_def)
    show ?thesis
    proof (cases "k = i")
      case True
      then show ?thesis using False k by (simp add: ps' alive_def)
    next
      case ne: False
      then show ?thesis using Suc.prems(1) k by (simp add: ps')
    qed
  qed
  then have "list_all alive (snd (sweep_particles i ps'))"
    using len by (intro Suc.IH) simp_all
  then show ?case by (simp only: eq)
qed

lemma updateParticles_alive: "list_all alive (snd (updateParticles pr det r ps))"
proof -
  define ps1 where "ps1 = maybe_spawn pr det r ps"
  have "list_all alive (snd (sweep_particles (length ps1) ps1))"
    by (rule sweep_alive) auto
  moreover have "snd (updateParticles pr det r ps) =
      (if \<not> enableEmbers pr then [] else snd (sweep_particles (length ps1) ps1))"
    unfolding updateParticles_def ps1_def Let_def by (simp add: case_prod_beta)
  ultimately show ?thesis by simp
qed


text \<open>
  Claim C8. Starting from the empty particle list, whatever the configuration, the mode
  and the random draws of each tick, the population after every tick is at most 50, in particular in
  deterministic mode for any number of ticks (200 among them). Within a tick the spawn
  adds at most one particle and only below 50: none at 50 or more, always one in
  deterministic mode below 50, and otherwise one exactly when the random draw exceeds
  0.6; the population stays within 50 after the spawn too. After the tick every
  particle left has a positive life and is not above \<open>y = -20\<close>.
\<close>

theorem ember_population_capped:
  "list_all (\<lambda>q. length q \<le> 50) (ember_run ticks [])
   \<and> list_all (\<lambda>q. length q \<le> 50) (ember_run (map (\<lambda>r. (pr, True, r)) rs) [])
   \<and> (50 \<le> length ps \<longrightarrow> maybe_spawn pr det r ps = ps)
   \<and> (length ps < 50 \<longrightarrow> maybe_spawn pr True r ps = ps @ [spawn_particle pr r])
   \<and> (length ps < 50 \<longrightarrow>
        maybe_spawn pr False r ps = (if r_gate r > 0.6 then ps @ [spawn_particle pr r] else ps))
   \<and> (length ps \<le> 50 \<longrightarrow> length (maybe_spawn pr det r ps) \<le> 50
        \<and> length (snd (updateParticles pr det r ps)) \<le> 50)
   \<and> list_all alive (snd (updateParticles pr det r ps))"
proof -
  have "list_all (\<lambda>q. length q \<le> 50) (ember_run ts [])" for ts
    by (rule ember_run_cap) simp
  then show ?thesis
    by (simp add: maybe_spawn_def updateParticles_cap updateParticles_alive)
qed

lemma demo_ember_lengths:
  "map length (ember_run
      [(demo_props, True, demo_ember_random), (demo_props, True, demo_ember_random),
       (demo_props, False, demo_ember_random)] [])
     = [1, 2, 2]"
  by (simp add: updateParticles_def maybe_spawn_def Let_def demo_props_def demo_ember_random_def
      spawn_particle_def move_particle_def width_def height_def getDimensions_def
      numeral_2_eq_2)

text \<open>
  The theorem on two deterministic ticks and one probabilistic tick whose draw is 0.25:
  the populations are 1, 2 and 2.
\<close>

theorem ember_population_capped_witness:
  "list_all (\<lambda>q. length q \<le> 50)
     (ember_run
        [(demo_props, True, demo_ember_random), (demo_props, True, demo_ember_random),
         (demo_props, False, demo_ember_random)] [])
   \<and> map length (ember_run
        [(demo_props, True, demo_ember_random), (demo_props, True, demo_ember_random),
         (demo_props, False, demo_ember_random)] [])
      = [1, 2, 2]
   \<and> maybe_spawn demo_props True demo_ember_random [] = [spawn_particle demo_props demo_ember_random]
   \<and> list_all alive (snd (updateParticles demo_props True demo_ember_random []))"
proof -
  note t = ember_population_capped [of
      "[(demo_props, True, demo_ember_random), (demo_props, True, demo_ember_random),
        (demo_props, False, demo_ember_random)]"
      demo_props "[]" "[]" True demo_ember_random]
  have a: "list_all (\<lambda>q. length q \<le> 50)
     (ember_run
        [(demo_props, True, demo_ember_random), (demo_props, True, demo_ember_random),
         (demo_props, False, demo_ember_random)] [])"
    using t by (rule conjunct1)
  have b: "maybe_spawn demo_props True demo_ember_random []
      = [spawn_particle demo_props demo_ember_random]"
    using t by simp
  have c: "list_all alive (snd (updateParticles demo_props True demo_ember_random []))"
    using t by blast
  show ?thesis by (intro conjI a b c demo_ember_lengths)
qed


section \<open>Scene rendering: opacity of the drawn layers\<close>

lemma alphas_append: "alphas (xs @ ys) = alphas xs @ alphas ys"
  by (induction xs rule: alphas.induct) simp_all

lemma alphas_drawMedia:
  "list_all (\<lambda>a. a = opacity) (alphas (drawMediaToCanvas pr m dims scale opacity xOffset yOffset))"
  by (simp add: drawMediaToCanvas_def Let_def)

lemma alphas_hexagon_path: "alphas (hexagon_path pr r) = []"
  by (simp add: hexagon_path_def Let_def upt_rec)

lemma alphas_wipe_clip: "alphas (wipe_clip pr t out p) = []"
  by (simp add: wipe_clip_def Let_def alphas_append alphas_hexagon_path)

lemma alphas_triangles:
  "alphas (concat (map (\<lambda>i. assembly_triangle pr (rnd i)) is)) = []"
  by (induction "is") (simp_all add: alphas_append assembly_triangle_def Let_def)

lemma alphas_polygon_assembly: "alphas (polygon_assembly pr rnd out elapsed) = []"
  by (simp add: polygon_assembly_def Let_def alphas_append alphas_triangles)

lemma alphas_image_layer:
  "list_all (\<lambda>a. a = opacity) (alphas (image_layer pr sc scale opacity xOffset yOffset st))"
  by (simp add: image_layer_def alphas_drawMedia split: option.splits)

lemma alphas_video_layer:
  "list_all (\<lambda>a. a = opacity)
     (alphas (fst (video_layer pr sc sceneDuration elapsed scale opacity xOffset yOffset st)))"
  by (simp add: video_layer_def Let_def alphas_drawMedia split: option.splits)

lemma renderSceneFrame_ops:
  "fst (renderSceneFrame pr rnd sc t p out st) =
     (let sceneDuration = endTime sc - startTime sc;
          elapsed = t - startTime sc;
          progress = min 1 (max 0 (elapsed / sceneDuration));
          moving = (transitionType sc = Parallax25d \<or> kenBurnsStrength pr > 0);
          ease = ease_in_out progress;
          scale0 = (if moving then 1.0 + (kenBurnsStrength pr * 0.15) + (ease * 0.05) else 1.0);
          xOffset = (if moving then ease * 20 * pan_seed (sceneId sc) else 0);
          scale = scale0 * transition_zoom (transitionType sc) out p;
          opacity = transition_opacity (transitionType sc) out p
      in [Save] @ wipe_clip pr (transitionType sc) out p @ polygon_assembly pr rnd out elapsed
           @ image_layer pr sc scale opacity xOffset 0 st
           @ fst (video_layer pr sc sceneDuration elapsed scale opacity xOffset 0 st)
           @ [Restore])"
  by (simp add: renderSceneFrame_def Let_def case_prod_beta)

lemma renderSceneFrame_state:
  "snd (renderSceneFrame pr rnd sc t p out st) =
     (let sceneDuration = endTime sc - startTime sc;
          elapsed = t - startTime sc;
          progress = min 1 (max 0 (elapsed / sceneDuration));
          moving = (transitionType sc = Parallax25d \<or> kenBurnsStrength pr > 0);
          ease = ease_in_out progress;
          scale0 = (if moving then 1.0 + (kenBurnsStrength pr * 0.15) + (ease * 0.05) else 1.0);
          xOffset = (if moving then ease * 20 * pan_seed (sceneId sc) else 0);
          scale = scale0 * transition_zoom (transitionType sc) out p;
          opacity = transition_opacity (transitionType sc) out p
      in snd (video_layer pr sc sceneDuration elapsed scale opacity xOffset 0 st))"
  by (simp add: renderSceneFrame_def Let_def case_prod_beta)

lemma alphas_renderSceneFrame:
  "list_all (\<lambda>a. a = transition_opacity (transitionType sc) out p)
     (alphas (fst (renderSceneFrame pr rnd sc t p out st)))"
  unfolding renderSceneFrame_ops Let_def
  by (simp add: alphas_append alphas_wipe_clip alphas_polygon_assembly alphas_image_layer
      alphas_video_layer)


section \<open>Transitions: the standard fade\<close>

lemma draw_transition_ops:
  assumes "\<not> isExporting st"
    and "findIndex (\<lambda>s. audio_currentTime audio \<ge> startTime s \<and> audio_currentTime audio < endTime s)
           (scenes pr) = Some i"
    and "0 < i"
    and "audio_currentTime audio - startTime (scenes pr ! i) < TRANSITION_DURATION"
  shows "\<exists>effects.
     fst (draw pr rnd True audio st) =
       fallback_fill pr (Some i) @ [FillStyle black, FillRect 0 0 (width pr) (height pr)]
       @ fst (renderSceneFrame pr (r_triangle rnd) (scenes pr ! (i - 1)) (audio_currentTime audio)
               ((audio_currentTime audio - startTime (scenes pr ! i)) / TRANSITION_DURATION) True
               (preload (scenes pr ! i) st))
       @ fst (renderSceneFrame pr (r_triangle rnd) (scenes pr ! i) (audio_currentTime audio)
               ((audio_currentTime audio - startTime (scenes pr ! i)) / TRANSITION_DURATION) False
               (snd (renderSceneFrame pr (r_triangle rnd) (scenes pr ! (i - 1))
                      (audio_currentTime audio)
                      ((audio_currentTime audio - startTime (scenes pr ! i)) / TRANSITION_DURATION)
                      True (preload (scenes pr ! i) st))))
       @ effects"
  using assms
  by (simp add: draw_def Let_def case_prod_beta)

text \<open>
  Claim C6. In the interactive loop, when the active scene is not the first and less
  than \<open>TRANSITION_DURATION\<close> (1.0 s) of it has elapsed, the frame is the black
  clear, then the previous scene rendered as outgoing, then the active scene rendered as
  incoming on top, then the effects, both with
  \<open>transitionProgress = elapsedIntoScene / TRANSITION_DURATION\<close>. When both scenes
  have the standard fade, every layer of the outgoing scene is drawn with opacity
  \<open>1 - p\<close> and every layer of the incoming scene with opacity \<open>p\<close>.
\<close>

theorem standard_fade_blend:
  assumes "\<not> isExporting st"
    and "t = audio_currentTime audio"
    and "findIndex (\<lambda>s. t \<ge> startTime s \<and> t < endTime s) (scenes pr) = Some i"
    and "0 < i"
    and "t - startTime (scenes pr ! i) < TRANSITION_DURATION"
    and "transitionType (scenes pr ! (i - 1)) = Standard"
    and "transitionType (scenes pr ! i) = Standard"
    and "p = (t - startTime (scenes pr ! i)) / TRANSITION_DURATION"
    and "renderSceneFrame pr (r_triangle rnd) (scenes pr ! (i - 1)) t p True
           (preload (scenes pr ! i) st) = (outgoing, sta)"
    and "renderSceneFrame pr (r_triangle rnd) (scenes pr ! i) t p False sta = (incoming, stb)"
  shows "(\<exists>effects. fst (draw pr rnd True audio st) =
            fallback_fill pr (Some i) @ [FillStyle black, FillRect 0 0 (width pr) (height pr)]
              @ outgoing @ incoming @ effects)
       \<and> p = t - startTime (scenes pr ! i)
       \<and> list_all (\<lambda>a. a = 1 - p) (alphas outgoing)
       \<and> list_all (\<lambda>a. a = p) (alphas incoming)"
proof -
  have a: "\<exists>effects. fst (draw pr rnd True audio st) =
            fallback_fill pr (Some i) @ [FillStyle black, FillRect 0 0 (width pr) (height pr)]
              @ outgoing @ incoming @ effects"
    using draw_transition_ops [of st audio pr i rnd] assms by simp
  have b: "p = t - startTime (scenes pr ! i)"
    using assms(8) by (simp add: TRANSITION_DURATION_def)
  have "list_all (\<lambda>a. a = transition_opacity Standard True p) (alphas outgoing)"
    using alphas_renderSceneFrame [of "scenes pr ! (i - 1)" True p pr "r_triangle rnd" t
        "preload (scenes pr ! i) st"] assms(6,9) by simp
  then have c: "list_all (\<lambda>a. a = 1 - p) (alphas outgoing)"
    by (simp add: transition_opacity_def)
  have "list_all (\<lambda>a. a = transition_opacity Standard False p) (alphas incoming)"
    using alphas_renderSceneFrame [of "scenes pr ! i" False p pr "r_triangle rnd" t sta]
      assms(7,10) by simp
  then have d: "list_all (\<lambda>a. a = p) (alphas incoming)"
    by (simp add: transition_opacity_def)
  show ?thesis using a b c d by blast
qed

lemmas demo_defs = fade_props_def demo_props_def demo_player_def demo_random_def demo_audio_def
  scene_a_def scene_b_def idle_video_def demo_ember_random_def

lemmas render_defs = renderSceneFrame_def image_layer_def video_layer_def find_slot_def
  drawMediaToCanvas_def polygon_assembly_def wipe_clip_def transition_opacity_def
  transition_zoom_def ease_in_out_def pan_seed_def truthy_def width_def height_def
  getDimensions_def TRANSITION_DURATION_def black_def

lemma fade_frame:
  "fst (draw fade_props demo_random True (demo_audio 5.4) demo_player) =
     [FillStyle (Colour ''#000''), FillRect 0 0 1280 720,
      Save, Save, GlobalAlpha 0.6, DrawImage (ImageMedia ''a.png'') 0 0 1280 720, Restore, Restore,
      Save, Save, GlobalAlpha 0.4, DrawImage (ImageMedia ''b.png'') 0 0 1280 720, Restore, Restore]"
  by (simp add: draw_def draw_effects_def fallback_fill_def preload_def Let_def demo_defs render_defs)


text \<open>
  The scenario of the claim: scenes \<open>[0, 5)\<close> and \<open>[5, 10)\<close> at \<open>t = 5.4\<close>. The
  frame is the clear, the first image at opacity 0.6 and the second image above it at
  opacity 0.4.
\<close>

theorem standard_fade_blend_witness:
  "fst (draw fade_props demo_random True (demo_audio 5.4) demo_player) =
     [FillStyle (Colour ''#000''), FillRect 0 0 1280 720,
      Save, Save, GlobalAlpha 0.6, DrawImage (ImageMedia ''a.png'') 0 0 1280 720, Restore, Restore,
      Save, Save, GlobalAlpha 0.4, DrawImage (ImageMedia ''b.png'') 0 0 1280 720, Restore, Restore]
   \<and> list_all (\<lambda>a. a = 1 - 0.4)
        (alphas (fst (renderSceneFrame fade_props (r_triangle demo_random) scene_a 5.4 0.4 True
                        (preload scene_b demo_player))))
   \<and> list_all (\<lambda>a. a = 0.4)
        (alphas (fst (renderSceneFrame fade_props (r_triangle demo_random) scene_b 5.4 0.4 False
                        (snd (renderSceneFrame fade_props (r_triangle demo_random) scene_a 5.4 0.4
                                True (preload scene_b demo_player))))))"
proof -
  define out where "out = renderSceneFrame fade_props (r_triangle demo_random) scene_a 5.4 0.4 True
      (preload scene_b demo_player)"
  define inc where "inc = renderSceneFrame fade_props (r_triangle demo_random) scene_b 5.4 0.4 False
      (snd out)"
  have h1: "\<not> isExporting demo_player" by (simp add: demo_player_def)
  have h2: "(5.4::real) = audio_currentTime (demo_audio 5.4)" by (simp add: demo_audio_def)
  have h3: "findIndex (\<lambda>s. (5.4::real) \<ge> startTime s \<and> 5.4 < endTime s) (scenes fade_props) = Some 1"
    by (simp add: fade_props_def scene_a_def scene_b_def)
  have h4: "0 < (1::nat)" by simp
  have h5: "5.4 - startTime (scenes fade_props ! 1) < TRANSITION_DURATION"
    by (simp add: fade_props_def scene_b_def TRANSITION_DURATION_def)
  have h6: "transitionType (scenes fade_props ! (1 - 1)) = Standard"
    by (simp add: fade_props_def scene_a_def)
  have h7: "transitionType (scenes fade_props ! 1) = Standard"
    by (simp add: fade_props_def scene_b_def)
  have h8: "(0.4::real) = (5.4 - startTime (scenes fade_props ! 1)) / TRANSITION_DURATION"
    by (simp add: fade_props_def scene_b_def TRANSITION_DURATION_def)
  have h9: "renderSceneFrame fade_props (r_triangle demo_random) (scenes fade_props ! (1 - 1)) 5.4 0.4
      True (preload (scenes fade_props ! 1) demo_player) = (fst out, snd out)"
    by (simp add: fade_props_def out_def)
  have h10: "renderSceneFrame fade_props (r_triangle demo_random) (scenes fade_props ! 1) 5.4 0.4
      False (snd out) = (fst inc, snd inc)"
    by (simp add: fade_props_def inc_def)
  note t = standard_fade_blend [OF h1 h2 h3 h4 h5 h6 h7 h8 h9 h10]
  have a: "list_all (\<lambda>a. a = 1 - 0.4) (alphas (fst out))" using t by blast
  have b: "list_all (\<lambda>a. a = 0.4) (alphas (fst inc))" using t by blast
  show ?thesis
    using a b unfolding out_def inc_def by (intro conjI fade_frame)
qed


section \<open>Transitions: the polygon wipe\<close>

lemma no_clip_drawMedia: "Clip \<notin> set (drawMediaToCanvas pr m dims scale opacity xOffset yOffset)"
  by (simp add: drawMediaToCanvas_def Let_def)

lemma no_clip_image: "Clip \<notin> set (image_layer pr sc scale opacity xOffset yOffset st)"
  by (simp add: image_layer_def no_clip_drawMedia split: option.splits)

lemma no_clip_video:
  "Clip \<notin> set (fst (video_layer pr sc sceneDuration elapsed scale opacity xOffset yOffset st))"
  by (simp add: video_layer_def Let_def no_clip_drawMedia split: option.splits)

lemma no_clip_outgoing: "Clip \<notin> set (fst (renderSceneFrame pr rnd sc t p True st))"
  unfolding renderSceneFrame_ops Let_def
  by (simp add: wipe_clip_def polygon_assembly_def no_clip_image no_clip_video)

lemma hexagon_path_vertices:
  "hexagon_path pr r =
     [MoveTo (fst (hexagon_vertex pr r 0)) (snd (hexagon_vertex pr r 0)),
      LineTo (fst (hexagon_vertex pr r 1)) (snd (hexagon_vertex pr r 1)),
      LineTo (fst (hexagon_vertex pr r 2)) (snd (hexagon_vertex pr r 2)),
      LineTo (fst (hexagon_vertex pr r 3)) (snd (hexagon_vertex pr r 3)),
      LineTo (fst (hexagon_vertex pr r 4)) (snd (hexagon_vertex pr r 4)),
      LineTo (fst (hexagon_vertex pr r 5)) (snd (hexagon_vertex pr r 5))]"
  by (simp add: hexagon_path_def Let_def upt_rec eval_nat_numeral)

lemma hexagon_vertex_on_circle:
  "(fst (hexagon_vertex pr r i) - width pr / 2)\<^sup>2 + (snd (hexagon_vertex pr r i) - height pr / 2)\<^sup>2 = r\<^sup>2"
proof -
  have "(r * cos a)\<^sup>2 + (r * sin a)\<^sup>2 = r\<^sup>2" for a :: real
  proof -
    have "(r * cos a)\<^sup>2 + (r * sin a)\<^sup>2 = r\<^sup>2 * (cos a)\<^sup>2 + r\<^sup>2 * (sin a)\<^sup>2"
      by (simp only: power_mult_distrib)
    also have "\<dots> = r\<^sup>2 * ((cos a)\<^sup>2 + (sin a)\<^sup>2)"
      by (simp only: distrib_left)
    also have "\<dots> = r\<^sup>2" by simp
    finally show ?thesis .
  qed
  then show ?thesis by (simp add: hexagon_vertex_def Let_def)
qed

text \<open>
  Claim C7. For a scene whose transition is the polygon wipe, at progress \<open>p\<close>: as the
  outgoing scene every layer is drawn with opacity 1 and nothing is clipped; as the
  incoming scene every layer is drawn with opacity 1 after the context is clipped to the
  closed path through six vertices, the first moved to and the others drawn to. Vertex
  \<open>i\<close> lies at angle \<open>i * 60\<close> degrees on the circle of radius
  \<open>max width height * p * 1.5\<close> around \<open>(width / 2, height / 2)\<close>. At 1280 by 720
  and \<open>p = 0.5\<close> the radius is 960.
\<close>

theorem polygon_wipe_geometry:
  assumes "transitionType sc = PolygonWipe"
    and "r = max (width pr) (height pr) * p * 1.5"
  shows "list_all (\<lambda>a. a = 1) (alphas (fst (renderSceneFrame pr rnd sc t p True st)))
       \<and> Clip \<notin> set (fst (renderSceneFrame pr rnd sc t p True st))
       \<and> list_all (\<lambda>a. a = 1) (alphas (fst (renderSceneFrame pr rnd sc t p False st)))
       \<and> (\<exists>rest. fst (renderSceneFrame pr rnd sc t p False st) =
             [Save, BeginPath,
              MoveTo (fst (hexagon_vertex pr r 0)) (snd (hexagon_vertex pr r 0)),
              LineTo (fst (hexagon_vertex pr r 1)) (snd (hexagon_vertex pr r 1)),
              LineTo (fst (hexagon_vertex pr r 2)) (snd (hexagon_vertex pr r 2)),
              LineTo (fst (hexagon_vertex pr r 3)) (snd (hexagon_vertex pr r 3)),
              LineTo (fst (hexagon_vertex pr r 4)) (snd (hexagon_vertex pr r 4)),
              LineTo (fst (hexagon_vertex pr r 5)) (snd (hexagon_vertex pr r 5)),
              ClosePath, Clip] @ rest)
       \<and> (\<forall>i < 6. hexagon_vertex pr r i =
              (width pr / 2 + r * cos (real i * 60 * pi / 180),
               height pr / 2 + r * sin (real i * 60 * pi / 180))
            \<and> (fst (hexagon_vertex pr r i) - width pr / 2)\<^sup>2
                + (snd (hexagon_vertex pr r i) - height pr / 2)\<^sup>2 = r\<^sup>2)
       \<and> (aspectRatio pr = Ratio_16_9 \<and> p = 0.5 \<longrightarrow> r = 960)"
proof -
  have a1: "list_all (\<lambda>a. a = 1) (alphas (fst (renderSceneFrame pr rnd sc t p True st)))"
    using alphas_renderSceneFrame [of sc True p pr rnd t st] assms(1)
    by (simp add: transition_opacity_def)
  have a2: "list_all (\<lambda>a. a = 1) (alphas (fst (renderSceneFrame pr rnd sc t p False st)))"
    using alphas_renderSceneFrame [of sc False p pr rnd t st] assms(1)
    by (simp add: transition_opacity_def)
  have b: "\<exists>rest. fst (renderSceneFrame pr rnd sc t p False st) =
             [Save, BeginPath,
              MoveTo (fst (hexagon_vertex pr r 0)) (snd (hexagon_vertex pr r 0)),
              LineTo (fst (hexagon_vertex pr r 1)) (snd (hexagon_vertex pr r 1)),
              LineTo (fst (hexagon_vertex pr r 2)) (snd (hexagon_vertex pr r 2)),
              LineTo (fst (hexagon_vertex pr r 3)) (snd (hexagon_vertex pr r 3)),
              LineTo (fst (hexagon_vertex pr r 4)) (snd (hexagon_vertex pr r 4)),
              LineTo (fst (hexagon_vertex pr r 5)) (snd (hexagon_vertex pr r 5)),
              ClosePath, Clip] @ rest"
    using assms(1) unfolding renderSceneFrame_ops Let_def assms(2)
    by (simp add: wipe_clip_def hexagon_path_vertices Let_def)
  have c: "hexagon_vertex pr r i =
      (width pr / 2 + r * cos (real i * 60 * pi / 180),
       height pr / 2 + r * sin (real i * 60 * pi / 180))" for i
  proof -
    have "real i * 60 * pi / 180 = real i * pi / 3" by simp
    then show ?thesis by (simp only: hexagon_vertex_def Let_def)
  qed
  have d: "aspectRatio pr = Ratio_16_9 \<and> p = 0.5 \<longrightarrow> r = 960"
  proof (intro impI)
    assume h: "aspectRatio pr = Ratio_16_9 \<and> p = 0.5"
    then have "width pr = 1280" "height pr = 720"
      by (simp_all add: width_def height_def getDimensions_def)
    then show "r = 960" using h unfolding assms(2) by simp
  qed
  have e: "\<forall>i < 6. hexagon_vertex pr r i =
              (width pr / 2 + r * cos (real i * 60 * pi / 180),
               height pr / 2 + r * sin (real i * 60 * pi / 180))
            \<and> (fst (hexagon_vertex pr r i) - width pr / 2)\<^sup>2
                + (snd (hexagon_vertex pr r i) - height pr / 2)\<^sup>2 = r\<^sup>2"
    using c hexagon_vertex_on_circle [of pr r] by blast
  show ?thesis by (intro conjI a1 a2 b e d no_clip_outgoing)
qed


text \<open>
  The theorem at 1280 by 720 and \<open>p = 0.5\<close>: radius 960, vertex 0 at
  \<open>(1600, 360)\<close>, vertex 3 at \<open>(-320, 360)\<close>, the image drawn opaque inside the
  clip.
\<close>

theorem polygon_wipe_geometry_witness:
  "transitionType scene_w = PolygonWipe
   \<and> (960::real) = max (width wipe_props) (height wipe_props) * 0.5 * 1.5
   \<and> hexagon_vertex wipe_props 960 0 = (1600, 360)
   \<and> hexagon_vertex wipe_props 960 3 = (- 320, 360)
   \<and> list_all (\<lambda>a. a = 1)
        (alphas (fst (renderSceneFrame wipe_props (r_triangle demo_random) scene_w 7.5 0.5 True
                        demo_player)))
   \<and> fst (renderSceneFrame wipe_props (r_triangle demo_random) scene_w 5.5 0.5 False demo_player) =
        [Save, BeginPath,
         MoveTo (fst (hexagon_vertex wipe_props 960 0)) (snd (hexagon_vertex wipe_props 960 0)),
         LineTo (fst (hexagon_vertex wipe_props 960 1)) (snd (hexagon_vertex wipe_props 960 1)),
         LineTo (fst (hexagon_vertex wipe_props 960 2)) (snd (hexagon_vertex wipe_props 960 2)),
         LineTo (fst (hexagon_vertex wipe_props 960 3)) (snd (hexagon_vertex wipe_props 960 3)),
         LineTo (fst (hexagon_vertex wipe_props 960 4)) (snd (hexagon_vertex wipe_props 960 4)),
         LineTo (fst (hexagon_vertex wipe_props 960 5)) (snd (hexagon_vertex wipe_props 960 5)),
         ClosePath, Clip,
         Save, GlobalAlpha 1, DrawImage (ImageMedia ''b.png'') 0 0 1280 720, Restore, Restore]"
proof -
  have h1: "transitionType scene_w = PolygonWipe" by (simp add: scene_w_def)
  have h2: "(960::real) = max (width wipe_props) (height wipe_props) * 0.5 * 1.5"
    by (simp add: wipe_props_def demo_props_def width_def height_def getDimensions_def)
  note t = polygon_wipe_geometry [OF h1 h2, of "r_triangle demo_random" "7.5" demo_player]
  have a: "list_all (\<lambda>a. a = 1)
        (alphas (fst (renderSceneFrame wipe_props (r_triangle demo_random) scene_w 7.5 0.5 True
                        demo_player)))"
    using t by (rule conjunct1)
  have v0: "hexagon_vertex wipe_props 960 0 = (1600, 360)"
    by (simp add: hexagon_vertex_def wipe_props_def demo_props_def width_def height_def
        getDimensions_def)
  have v3: "hexagon_vertex wipe_props 960 3 = (- 320, 360)"
    by (simp add: hexagon_vertex_def wipe_props_def demo_props_def width_def height_def
        getDimensions_def)
  have f: "fst (renderSceneFrame wipe_props (r_triangle demo_random) scene_w 5.5 0.5 False demo_player) =
        [Save, BeginPath,
         MoveTo (fst (hexagon_vertex wipe_props 960 0)) (snd (hexagon_vertex wipe_props 960 0)),
         LineTo (fst (hexagon_vertex wipe_props 960 1)) (snd (hexagon_vertex wipe_props 960 1)),
         LineTo (fst (hexagon_vertex wipe_props 960 2)) (snd (hexagon_vertex wipe_props 960 2)),
         LineTo (fst (hexagon_vertex wipe_props 960 3)) (snd (hexagon_vertex wipe_props 960 3)),
         LineTo (fst (hexagon_vertex wipe_props 960 4)) (snd (hexagon_vertex wipe_props 960 4)),
         LineTo (fst (hexagon_vertex wipe_props 960 5)) (snd (hexagon_vertex wipe_props 960 5)),
         ClosePath, Clip,
         Save, GlobalAlpha 1, DrawImage (ImageMedia ''b.png'') 0 0 1280 720, Restore, Restore]"
    unfolding renderSceneFrame_ops Let_def
    by (simp add: wipe_clip_def hexagon_path_vertices image_layer_def video_layer_def find_slot_def
        drawMediaToCanvas_def polygon_assembly_def transition_opacity_def transition_zoom_def
        truthy_def width_def height_def getDimensions_def Let_def
        wipe_props_def demo_props_def scene_w_def demo_player_def idle_video_def)
  show ?thesis by (intro conjI h1 h2 v0 v3 a f)
qed


section \<open>Velocity sync\<close>

lemma get_set_slot: "get_slot (set_slot k v st) k = v"
  by (cases k) (simp_all add: get_slot_def set_slot_def)

lemma render_slot:
  assumes "find_slot st sc = Some k" and "truthy (videoClipUrl sc)"
    and "2 \<le> readyState (get_slot st k)"
  shows "get_slot (snd (renderSceneFrame pr rnd sc t p out st)) k =
     (let v1 = velocity_sync (endTime sc - startTime sc) (t - startTime sc) (get_slot st k)
      in if isPlaying st \<and> paused v1 then v1\<lparr>paused := False\<rparr> else v1)"
  unfolding renderSceneFrame_state Let_def
  using assms by (simp add: video_layer_def Let_def get_set_slot)

text \<open>
  Claim C3 (as amended). When a scene with \<open>startTime < endTime\<close> is rendered and its
  clip is bound to a slot that is ready (\<open>readyState \<ge> 2\<close>), let
  \<open>baseRate = d / sceneDuration\<close> where \<open>d\<close> is the clip's duration, or the scene's
  own duration when the clip reports 0 or NaN (so that \<open>baseRate = 1\<close>), let
  \<open>targetPosition = elapsed * baseRate\<close> and
  \<open>drift = currentTime - targetPosition\<close>. If \<open>|drift| > 0.5\<close> the clip position
  becomes \<open>targetPosition\<close> and the rate is left alone; else if \<open>|drift| > 0.05\<close>
  the rate becomes \<open>baseRate * 0.95\<close> when the clip is ahead and \<open>baseRate * 1.05\<close>
  otherwise; else the rate becomes \<open>baseRate\<close>.
\<close>

theorem velocity_sync_rule:
  assumes "find_slot st sc = Some k" and "truthy (videoClipUrl sc)"
    and "2 \<le> readyState (get_slot st k)" and "startTime sc < endTime sc"
    and "v = get_slot st k"
    and "v' = get_slot (snd (renderSceneFrame pr rnd sc t p out st)) k"
    and "sceneDuration = endTime sc - startTime sc" and "elapsed = t - startTime sc"
    and "baseRate = clip_duration_or (duration v) sceneDuration / sceneDuration"
    and "targetPosition = elapsed * baseRate" and "drift = currentTime v - targetPosition"
  shows "(\<bar>drift\<bar> > 0.5 \<longrightarrow> currentTime v' = targetPosition \<and> playbackRate v' = playbackRate v)
       \<and> (\<bar>drift\<bar> \<le> 0.5 \<and> \<bar>drift\<bar> > 0.05 \<and> drift > 0 \<longrightarrow>
            playbackRate v' = baseRate * 0.95 \<and> currentTime v' = currentTime v)
       \<and> (\<bar>drift\<bar> \<le> 0.5 \<and> \<bar>drift\<bar> > 0.05 \<and> \<not> drift > 0 \<longrightarrow>
            playbackRate v' = baseRate * 1.05 \<and> currentTime v' = currentTime v)
       \<and> (\<bar>drift\<bar> \<le> 0.05 \<longrightarrow> playbackRate v' = baseRate \<and> currentTime v' = currentTime v)
       \<and> (\<forall>d. duration v = Some d \<and> d \<noteq> 0 \<longrightarrow> baseRate = d / sceneDuration)
       \<and> (duration v = None \<or> duration v = Some 0 \<longrightarrow> baseRate = 1)"
proof -
  define v1 where "v1 = velocity_sync sceneDuration elapsed v"
  have v': "currentTime v' = currentTime v1 \<and> playbackRate v' = playbackRate v1"
    using render_slot [OF assms(1,2,3), of pr rnd t p out] assms(5,6,7,8)
    by (simp add: v1_def Let_def)
  have nz: "sceneDuration \<noteq> 0" using assms(4,7) by simp
  have eq: "v1 = (if \<bar>drift\<bar> > 0.5 then v\<lparr>currentTime := targetPosition\<rparr>
         else if \<bar>drift\<bar> > 0.05 then
           v\<lparr>playbackRate := (if drift > 0 then baseRate * 0.95 else baseRate * 1.05)\<rparr>
         else v\<lparr>playbackRate := baseRate\<rparr>)"
    unfolding v1_def velocity_sync_def Let_def assms(9,10,11) by (rule refl)
  have a: "\<bar>drift\<bar> > 0.5 \<longrightarrow> currentTime v1 = targetPosition \<and> playbackRate v1 = playbackRate v"
    by (auto simp add: eq)
  have b: "\<bar>drift\<bar> \<le> 0.5 \<and> \<bar>drift\<bar> > 0.05 \<and> drift > 0 \<longrightarrow>
            playbackRate v1 = baseRate * 0.95 \<and> currentTime v1 = currentTime v"
    by (auto simp add: eq)
  have c: "\<bar>drift\<bar> \<le> 0.5 \<and> \<bar>drift\<bar> > 0.05 \<and> \<not> drift > 0 \<longrightarrow>
            playbackRate v1 = baseRate * 1.05 \<and> currentTime v1 = currentTime v"
    by (auto simp add: eq)
  have d: "\<bar>drift\<bar> \<le> 0.05 \<longrightarrow> playbackRate v1 = baseRate \<and> currentTime v1 = currentTime v"
    by (auto simp add: eq)
  have e: "\<forall>d. duration v = Some d \<and> d \<noteq> 0 \<longrightarrow> baseRate = d / sceneDuration"
    unfolding assms(9) by (simp add: clip_duration_or_def)
  have f: "duration v = None \<or> duration v = Some 0 \<longrightarrow> baseRate = 1"
    unfolding assms(9) using nz by (auto simp add: clip_duration_or_def)
  show ?thesis using v' a b c d e f by simp
qed


lemmas clip_defs = clip_player_def clip_video_def scene_v_def demo_player_def idle_video_def
  demo_props_def demo_random_def

text \<open>
  The theorem on a 10 s clip in a 5 s scene, one second in, the clip at 2.3 s:
  \<open>baseRate = 2\<close>, the drift is 0.3 and the rate becomes \<open>2 * 0.95\<close>.
\<close>

theorem velocity_sync_rule_witness:
  "find_slot (clip_player (Some 10) 2.3) scene_v = Some Slot1
   \<and> truthy (videoClipUrl scene_v)
   \<and> 2 \<le> readyState (get_slot (clip_player (Some 10) 2.3) Slot1)
   \<and> startTime scene_v < endTime scene_v
   \<and> playbackRate (get_slot (snd (renderSceneFrame demo_props (r_triangle demo_random) scene_v 1 1
         False (clip_player (Some 10) 2.3))) Slot1) = 2 * 0.95
   \<and> currentTime (get_slot (snd (renderSceneFrame demo_props (r_triangle demo_random) scene_v 1 1
         False (clip_player (Some 10) 2.3))) Slot1) = 2.3"
proof -
  have h1: "find_slot (clip_player (Some 10) 2.3) scene_v = Some Slot1"
    by (simp add: find_slot_def clip_defs)
  have h2: "truthy (videoClipUrl scene_v)" by (simp add: truthy_def scene_v_def)
  have h3: "2 \<le> readyState (get_slot (clip_player (Some 10) 2.3) Slot1)"
    by (simp add: get_slot_def clip_defs)
  have h4: "startTime scene_v < endTime scene_v" by (simp add: scene_v_def)
  note t = velocity_sync_rule [where pr = demo_props and rnd = "r_triangle demo_random"
      and t = 1 and p = 1 and out = False, OF h1 h2 h3 h4 refl refl refl refl refl refl refl]
  have "playbackRate (get_slot (snd (renderSceneFrame demo_props (r_triangle demo_random) scene_v 1 1
         False (clip_player (Some 10) 2.3))) Slot1) = 2 * 0.95
      \<and> currentTime (get_slot (snd (renderSceneFrame demo_props (r_triangle demo_random) scene_v 1 1
         False (clip_player (Some 10) 2.3))) Slot1) = 2.3"
    using t by (simp add: get_slot_def clip_defs clip_duration_or_def)
  then show ?thesis using h1 h2 h3 h4 by blast
qed

text \<open>
  On a clip that reports a duration other than 0 the code is the rule as the
  specification words it.
\<close>

lemma velocity_sync_agrees:
  assumes "duration v = Some d" and "d \<noteq> 0"
  shows "velocity_sync sceneDuration elapsed v = spec_velocity_sync d sceneDuration elapsed v"
  using assms by (simp add: velocity_sync_def spec_velocity_sync_def clip_duration_or_def)

text \<open>
  The claim as worded fails on a clip that reports a duration of 0, resting at its
  position 0: in a 5 s scene, 0.3 s in, the code takes \<open>baseRate = 1\<close>, finds the clip
  0.3 s behind and sets the rate to 1.05; with
  \<open>baseRate = clipDuration / sceneDuration = 0\<close> the target is 0, the drift is 0 and
  the rule would set the rate to 0. Neither moves the position.
\<close>

theorem velocity_sync_counterexample:
  "currentTime (video1 (snd (renderSceneFrame demo_props (r_triangle demo_random) scene_v 0.3 1
       False (clip_player (Some 0) 0)))) = 0
   \<and> playbackRate (video1 (snd (renderSceneFrame demo_props (r_triangle demo_random) scene_v 0.3 1
       False (clip_player (Some 0) 0)))) = 1.05
   \<and> currentTime (spec_velocity_sync 0 5 0.3 (video1 (clip_player (Some 0) 0))) = 0
   \<and> playbackRate (spec_velocity_sync 0 5 0.3 (video1 (clip_player (Some 0) 0))) = 0"
  unfolding renderSceneFrame_state Let_def
  by (simp add: video_layer_def velocity_sync_def spec_velocity_sync_def find_slot_def get_slot_def
      set_slot_def clip_duration_or_def truthy_def Let_def clip_defs)


section \<open>The export loop against the interactive loop\<close>

text \<open>
  Claim C2. The claim is that the interactive loop and the export loop compose the same
  frame, layer by layer: scene content, embers, ambient overlay video, film grain,
  letterboxing. The code does not: with one image scene at \<open>t = 2\<close> and the overlay
  and the letterboxing enabled (the overlay element has no source and is not ready, so
  its pass draws nothing), \<open>draw\<close> clears the canvas, draws the scene, then the two
  letterbox bars, while \<open>exportLoop\<close> at the same clock draws the scene and nothing
  else: it has no clear, no overlay pass and no letterboxing pass.
\<close>

theorem export_frame_omits_layers:
  "fst (draw cinema_props demo_random True (demo_audio 2) demo_player) =
     [FillStyle (Colour ''#000''), FillRect 0 0 1280 720,
      Save, Save, GlobalAlpha 1, DrawImage (ImageMedia ''a.png'') 0 0 1280 720, Restore, Restore,
      FillStyle (Colour ''#000''), FillRect 0 0 1280 72, FillRect 0 648 1280 72]
   \<and> fst (exportLoop cinema_props demo_random True 2 exporting_player demo_session) =
     [Save, Save, GlobalAlpha 1, DrawImage (ImageMedia ''a.png'') 0 0 1280 720, Restore, Restore]"
proof -
  have a: "fst (draw cinema_props demo_random True (demo_audio 2) demo_player) =
     [FillStyle (Colour ''#000''), FillRect 0 0 1280 720,
      Save, Save, GlobalAlpha 1, DrawImage (ImageMedia ''a.png'') 0 0 1280 720, Restore, Restore,
      FillStyle (Colour ''#000''), FillRect 0 0 1280 72, FillRect 0 648 1280 72]"
    by (simp add: draw_def draw_effects_def fallback_fill_def preload_def Let_def cinema_props_def
        demo_defs render_defs)
  have b: "fst (exportLoop cinema_props demo_random True 2 exporting_player demo_session) =
     [Save, Save, GlobalAlpha 1, DrawImage (ImageMedia ''a.png'') 0 0 1280 720, Restore, Restore]"
    by (simp add: exportLoop_def export_effects_def fallback_fill_def preload_def Let_def
        cinema_props_def exporting_player_def demo_session_def demo_defs render_defs
        case_prod_beta recorder_stop_def)
  show ?thesis by (intro conjI a b)
qed

text \<open>
  From the two frames: both loops draw the image and no other media; the letterbox bar
  at the foot of the frame is among the calls of \<open>draw\<close> and not among those of
  \<open>exportLoop\<close>, and the frames differ.
\<close>

theorem export_frame_omits_layers_witness:
  "drawn_media (fst (draw cinema_props demo_random True (demo_audio 2) demo_player))
     = [ImageMedia ''a.png'']
   \<and> drawn_media (fst (exportLoop cinema_props demo_random True 2 exporting_player demo_session))
     = [ImageMedia ''a.png'']
   \<and> FillRect 0 648 1280 72 \<in> set (fst (draw cinema_props demo_random True (demo_audio 2) demo_player))
   \<and> FillRect 0 648 1280 72
       \<notin> set (fst (exportLoop cinema_props demo_random True 2 exporting_player demo_session))
   \<and> fst (draw cinema_props demo_random True (demo_audio 2) demo_player)
     \<noteq> fst (exportLoop cinema_props demo_random True 2 exporting_player demo_session)"
  using export_frame_omits_layers by simp


section \<open>The export loop: cancellation\<close>

text \<open>
  With the flag cleared, \<open>exportLoop\<close> returns at its first line: it draws nothing,
  changes nothing and asks for no further frame.
\<close>

lemma exportLoop_cancelled:
  "\<not> isExportingRef st \<Longrightarrow> exportLoop pr rnd mounted audioCtxTime st sess = ([], st, sess, Cancelled)"
  by (simp add: exportLoop_def)

text \<open>Rendering and pre-loading leave the export flag alone.\<close>

lemma preload_flag: "isExportingRef (preload sc st) = isExportingRef st"
  by (simp add: preload_def Let_def)

lemma video_layer_flag:
  "isExportingRef (snd (video_layer pr sc sceneDuration elapsed scale opacity xOffset yOffset st))
     = isExportingRef st"
  by (simp add: video_layer_def set_slot_def Let_def split: option.splits slot.splits)

lemma renderSceneFrame_flag:
  "isExportingRef (snd (renderSceneFrame pr rnd sc t p out st)) = isExportingRef st"
  unfolding renderSceneFrame_state Let_def by (rule video_layer_flag)

text \<open>
  The invariant of a running export: the flag is set, or the recorder has stopped and the
  audio context is closed. A call of \<open>exportLoop\<close> keeps it: the call that ends the
  export stops the recorder, whose \<open>onstop\<close> handler clears the flag and closes the
  context in one go; every other call leaves the flag and the session as they are.
\<close>

lemma exportLoop_released:
  assumes "isExportingRef st \<or> (recorder sess = Inactive \<and> audioCtxClosed sess)"
    and "exportLoop pr rnd mounted audioCtxTime st sess = (ops, st', sess', outcome)"
  shows "isExportingRef st' \<or> (recorder sess' = Inactive \<and> audioCtxClosed sess')"
proof (cases "isExportingRef st")
  case False
  then show ?thesis using assms exportLoop_cancelled [of st pr rnd mounted audioCtxTime sess]
    by simp
next
  case True
  then show ?thesis using assms(2)
    by (auto simp add: exportLoop_def Let_def case_prod_beta recorder_stop_def preload_flag
        renderSceneFrame_flag split: option.splits if_splits)
qed

lemma export_step_released:
  assumes "isExportingRef (run_player run)
      \<or> (recorder (run_session run) = Inactive \<and> audioCtxClosed (run_session run))"
  shows "isExportingRef (run_player (export_step pr run ev))
      \<or> (recorder (run_session (export_step pr run ev)) = Inactive
          \<and> audioCtxClosed (run_session (export_step pr run ev)))"
proof (cases ev)
  case (Frame rnd mounted audioCtxTime)
  show ?thesis
  proof (cases "loopDue run")
    case False
    then show ?thesis using assms Frame by (simp add: export_step_def)
  next
    case True
    obtain ops st' sess' outcome where
      e: "exportLoop pr rnd mounted audioCtxTime (run_player run) (run_session run)
            = (ops, st', sess', outcome)"
      by (cases "exportLoop pr rnd mounted audioCtxTime (run_player run) (run_session run)") auto
    from exportLoop_released [OF assms e] show ?thesis
      using True Frame e by (simp add: export_step_def)
  qed
next
  case RecorderStopped
  then show ?thesis using assms by (simp add: export_step_def recorder_stop_def)
qed

lemma export_events_released:
  assumes "isExportingRef (run_player run)
      \<or> (recorder (run_session run) = Inactive \<and> audioCtxClosed (run_session run))"
  shows "isExportingRef (run_player (export_events pr evs run))
      \<or> (recorder (run_session (export_events pr evs run)) = Inactive
          \<and> audioCtxClosed (run_session (export_events pr evs run)))"
  using assms
proof (induction evs arbitrary: run)
  case Nil
  then show ?case by (simp add: export_events_def)
next
  case (Cons ev evs)
  from Cons.IH [OF export_step_released [OF Cons.prems, of pr ev]]
  show ?case by (simp add: export_events_def)
qed

text \<open>
  Claim C9. An export runs from the session that \<open>handleExport\<close> started, through any
  calls of \<open>exportLoop\<close> and any stop of the recorder. Whenever its liveness flag is
  found cleared, the next call of \<open>exportLoop\<close> returns at its first line: it draws
  nothing, leaves the player and the session as they are, raises no error and asks for
  no further frame, so that no call is due after it. And the resources the export
  acquired are released at that point: the recorder is inactive and the audio context is
  closed. (The early return releases nothing itself: in a running export the flag is
  cleared by the \<open>onstop\<close> handler only, which also closes the context, once the
  recorder has stopped.)
\<close>

theorem export_cancel_after_release:
  assumes "handleExport narrationDuration t0 st0 = (st1, Started sess1)"
    and "run = export_events pr evs \<lparr>run_player = st1, run_session = sess1, loopDue = True\<rparr>"
    and "\<not> isExportingRef (run_player run)"
  shows "exportLoop pr rnd mounted audioCtxTime (run_player run) (run_session run)
           = ([], run_player run, run_session run, Cancelled)
       \<and> export_step pr run (Frame rnd mounted audioCtxTime) = run\<lparr>loopDue := False\<rparr>
       \<and> recorder (run_session run) = Inactive
       \<and> audioCtxClosed (run_session run)"
proof -
  have live: "isExportingRef st1"
    using assms(1) by (auto simp add: handleExport_def Let_def split: if_splits option.splits)
  have inv: "isExportingRef (run_player run)
      \<or> (recorder (run_session run) = Inactive \<and> audioCtxClosed (run_session run))"
    unfolding assms(2) by (rule export_events_released) (simp add: live)
  have stop: "exportLoop pr rnd mounted audioCtxTime (run_player run) (run_session run)
           = ([], run_player run, run_session run, Cancelled)"
    using assms(3) by (rule exportLoop_cancelled)
  have step: "export_step pr run (Frame rnd mounted audioCtxTime) = run\<lparr>loopDue := False\<rparr>"
    by (cases "loopDue run") (simp_all add: export_step_def stop)
  show ?thesis using inv assms(3) stop step by simp
qed

text \<open>
  The example: \<open>handleExport\<close> on a ten-second narration starts the session; the first
  frame is drawn at 1 s and asks for the next; then the recorder stops by itself. A call
  of \<open>exportLoop\<close> is due and the flag is cleared: the call at 2 s draws nothing and
  ends the loop, with the recorder inactive and the audio context closed.
\<close>

lemma handleExport_acquires:
  "handleExport (Some 10) 0 demo_player = (exporting_player, Started demo_session)"
  by (simp add: handleExport_def exporting_player_def demo_session_def demo_player_def)

lemma stopped_run:
  "export_events cinema_props [Frame demo_random True 1, RecorderStopped]
       \<lparr>run_player = exporting_player, run_session = demo_session, loopDue = True\<rparr>
     = \<lparr>run_player = exporting_player\<lparr>lastActiveSceneId := Some ''scene-1'',
            frameRequested := True, isExporting := False, isExportingRef := False\<rparr>,
        run_session = demo_session\<lparr>recorder := Inactive, downloads := 1, audioCtxClosed := True\<rparr>,
        loopDue = True\<rparr>"
  by (simp add: export_events_def export_step_def exportLoop_def export_effects_def
      fallback_fill_def preload_def Let_def cinema_props_def exporting_player_def
      demo_session_def demo_defs render_defs case_prod_beta recorder_stop_def truthy_def scene_a_def)

theorem export_cancel_after_release_witness:
  "handleExport (Some 10) 0 demo_player = (exporting_player, Started demo_session)
   \<and> loopDue (export_events cinema_props [Frame demo_random True 1, RecorderStopped]
        \<lparr>run_player = exporting_player, run_session = demo_session, loopDue = True\<rparr>)
   \<and> \<not> isExportingRef (run_player (export_events cinema_props
        [Frame demo_random True 1, RecorderStopped]
        \<lparr>run_player = exporting_player, run_session = demo_session, loopDue = True\<rparr>))
   \<and> fst (exportLoop cinema_props demo_random True 2
        (run_player (export_events cinema_props [Frame demo_random True 1, RecorderStopped]
           \<lparr>run_player = exporting_player, run_session = demo_session, loopDue = True\<rparr>))
        (run_session (export_events cinema_props [Frame demo_random True 1, RecorderStopped]
           \<lparr>run_player = exporting_player, run_session = demo_session, loopDue = True\<rparr>))) = []
   \<and> snd (snd (snd (exportLoop cinema_props demo_random True 2
        (run_player (export_events cinema_props [Frame demo_random True 1, RecorderStopped]
           \<lparr>run_player = exporting_player, run_session = demo_session, loopDue = True\<rparr>))
        (run_session (export_events cinema_props [Frame demo_random True 1, RecorderStopped]
           \<lparr>run_player = exporting_player, run_session = demo_session, loopDue = True\<rparr>)))))
       = Cancelled
   \<and> recorder (run_session (export_events cinema_props [Frame demo_random True 1, RecorderStopped]
        \<lparr>run_player = exporting_player, run_session = demo_session, loopDue = True\<rparr>)) = Inactive
   \<and> audioCtxClosed (run_session (export_events cinema_props
        [Frame demo_random True 1, RecorderStopped]
        \<lparr>run_player = exporting_player, run_session = demo_session, loopDue = True\<rparr>))"
proof -
  have due: "loopDue (export_events cinema_props [Frame demo_random True 1, RecorderStopped]
        \<lparr>run_player = exporting_player, run_session = demo_session, loopDue = True\<rparr>)"
    by (simp add: stopped_run)
  have cleared: "\<not> isExportingRef (run_player (export_events cinema_props
        [Frame demo_random True 1, RecorderStopped]
        \<lparr>run_player = exporting_player, run_session = demo_session, loopDue = True\<rparr>))"
    by (simp add: stopped_run)
  note t = export_cancel_after_release [OF handleExport_acquires refl cleared,
      of demo_random True 2]
  show ?thesis using t due cleared handleExport_acquires by simp
qed

text \<open>
  The path that ends the export when the narration is over releases them in the same
  way: the recorder is stopped, and its \<open>onstop\<close> handler closes the audio context and
  clears the flags.
\<close>

lemma export_finish_releases:
  assumes "isExportingRef st" and "\<not> audioCtxTime - startT sess < totalT sess"
  shows "snd (snd (snd (exportLoop pr rnd True audioCtxTime st sess))) = Finished
       \<and> audioCtxClosed (fst (snd (snd (exportLoop pr rnd True audioCtxTime st sess))))
       \<and> recorder (fst (snd (snd (exportLoop pr rnd True audioCtxTime st sess)))) = Inactive
       \<and> \<not> isExportingRef (fst (snd (exportLoop pr rnd True audioCtxTime st sess)))"
  using assms by (simp add: exportLoop_def Let_def case_prod_beta recorder_stop_def)

text \<open>
  A set-up that fails leaves the flags cleared and the audio context open; no call of
  \<open>exportLoop\<close> follows it.
\<close>

lemma handleExport_crash:
  "\<not> isExportingRef st \<Longrightarrow>
     handleExport None t0 st = (st\<lparr>isExportingRef := False, isExporting := False\<rparr>, EngineCrash False)"
  by (simp add: handleExport_def)


end
